theory Spec2Isabelle
  imports Complex_Main "HOL-Library.AList"
begin

chapter \<open>The model\<close>

section \<open>Python values used by the allocation engine\<close>

text \<open>
  The engine is two Python programs: \<^verbatim>\<open>optimize_allocation.py\<close> (the capacity-weighted
  rebalancer, working on rows read by \<^verbatim>\<open>csv.DictReader\<close>) and \<^verbatim>\<open>backend.py\<close> (the
  nearest-unit dispatcher, working on an SQLite table).

  Strings are byte strings; the string methods below are the ASCII behaviour of
  \<^verbatim>\<open>str.strip\<close> and \<^verbatim>\<open>str.lower\<close>. The builtin conversions of strings to numbers,
  \<^verbatim>\<open>int(s)\<close> and \<^verbatim>\<open>float(s)\<close>, are parameters \<open>pint\<close> and \<open>pfloat\<close> of the functions that
  call them (\<open>None\<close> when the builtin raises \<^verbatim>\<open>ValueError\<close>), so every result holds for
  Python's own parsers. Floats and their arithmetic are modelled in the section on floats.
\<close>

datatype py_error =
    KeyError string
  | AttributeError
  | TypeError
  | ValueError

text \<open>A Python \<^verbatim>\<open>dict\<close> with string keys keeps insertion order: an association list read
  with \<^const>\<open>map_of\<close> and written with \<^const>\<open>AList.update\<close>, which overwrites a key in
  place and appends a new one.\<close>

type_synonym 'v pydict = "(string \<times> 'v) list"

text \<open>A row of \<^verbatim>\<open>csv.DictReader\<close>: every cell is a string.\<close>

type_synonym row = "string pydict"

text \<open>A cell of a vehicle dictionary: the string read from the file, or the float the
  rebalancer stores. \<^verbatim>\<open>float(x)\<close> keeps a float and parses a string.\<close>

datatype pyval = Str string | Flt real

type_synonym vehicle = "pyval pydict"

fun py_float :: "(string \<Rightarrow> real option) \<Rightarrow> pyval \<Rightarrow> real option" where
  "py_float pfloat (Flt r) = Some r"
| "py_float pfloat (Str s) = pfloat s"

text \<open>\<^verbatim>\<open>d.get(k, default)\<close>\<close>

definition dict_get :: "'v pydict \<Rightarrow> string \<Rightarrow> 'v \<Rightarrow> 'v" where
  "dict_get d k dflt = (case map_of d k of None \<Rightarrow> dflt | Some v \<Rightarrow> v)"

text \<open>\<^verbatim>\<open>row.get(k, 0.0)\<close> on a row of strings: the cell, or the float default.\<close>

definition get_cell :: "row \<Rightarrow> string \<Rightarrow> real \<Rightarrow> pyval" where
  "get_cell r k dflt = (case map_of r k of None \<Rightarrow> Flt dflt | Some s \<Rightarrow> Str s)"

text \<open>The characters \<^verbatim>\<open>str.isspace\<close> accepts below 128.\<close>

definition is_space :: "char \<Rightarrow> bool" where
  "is_space c \<longleftrightarrow> (let n = (of_char c :: nat) in (9 \<le> n \<and> n \<le> 13) \<or> (28 \<le> n \<and> n \<le> 32))"

definition strip :: "string \<Rightarrow> string" where
  "strip s = rev (dropWhile is_space (rev (dropWhile is_space s)))"

definition lower_char :: "char \<Rightarrow> char" where
  "lower_char c = (let n = (of_char c :: nat) in if 65 \<le> n \<and> n \<le> 90 then char_of (n + 32) else c)"

definition lower :: "string \<Rightarrow> string" where
  "lower s = map lower_char s"

text \<open>\<^verbatim>\<open>x.strip().lower()\<close>, the normalisation applied to regions and vehicle types.\<close>

definition normalise :: "string \<Rightarrow> string" where
  "normalise s = lower (strip s)"

text \<open>\<^verbatim>\<open>int(round(x))\<close>: Python 3 rounds to the nearest integer, a tie to the even one.\<close>

definition py_round :: "real \<Rightarrow> int" where
  "py_round x =
     (let f = \<lfloor>x\<rfloor>; d = x - of_int f
      in if d < 1 / 2 then f
         else if 1 / 2 < d then f + 1
         else if even f then f else f + 1)"

section \<open>Python floats\<close>

text \<open>
  A Python float is an IEEE 754 double. It is modelled as the real number it denotes, and
  every arithmetic operation rounds its exact result to the nearest double, a tie to the
  one with an even significand: \<^verbatim>\<open>x + y\<close> is \<open>rnd (x + y)\<close>. The spacing of the doubles
  around \<open>x\<close> is \<open>ulp x\<close>, 52 binary places below the leading bit of \<open>x\<close> and never finer
  than the subnormal spacing. Infinities and \<^verbatim>\<open>nan\<close> (results of magnitude \<open>2 ^ 1024\<close> and
  more) are outside the model.
\<close>

definition ulp :: "real \<Rightarrow> real" where
  "ulp x = 2 powr of_int (max \<lfloor>log 2 \<bar>x\<bar>\<rfloor> (- 1022) - 52)"

definition rnd :: "real \<Rightarrow> real" where
  "rnd x = (if x = 0 then 0 else of_int (py_round (x / ulp x)) * ulp x)"

definition fadd :: "real \<Rightarrow> real \<Rightarrow> real" where
  "fadd x y = rnd (x + y)"

definition fsub :: "real \<Rightarrow> real \<Rightarrow> real" where
  "fsub x y = rnd (x - y)"

definition fmul :: "real \<Rightarrow> real \<Rightarrow> real" where
  "fmul x y = rnd (x * y)"

definition fdiv :: "real \<Rightarrow> real \<Rightarrow> real" where
  "fdiv x y = rnd (x / y)"

text \<open>The conversion of an \<^verbatim>\<open>int\<close> operand of a float operation.\<close>

definition int_to_float :: "int \<Rightarrow> real" where
  "int_to_float n = rnd (of_int n)"

text \<open>\<^verbatim>\<open>math.sqrt\<close> is correctly rounded and raises \<^verbatim>\<open>ValueError\<close> (math domain error) on a
  negative argument.\<close>

definition py_sqrt :: "real \<Rightarrow> py_error + real" where
  "py_sqrt x = (if x < 0 then Inl ValueError else Inr (rnd (sqrt x)))"

text \<open>The functions Python takes from the C library, whose results on doubles are close to
  the mathematical ones but not specified bit for bit: \<^verbatim>\<open>math.sin\<close>, \<^verbatim>\<open>math.cos\<close>,
  \<^verbatim>\<open>math.atan2\<close> and \<^verbatim>\<open>x ** y\<close>. They are a parameter of the functions that call them.\<close>

record libm =
  lsin :: "real \<Rightarrow> real"
  lcos :: "real \<Rightarrow> real"
  latan2 :: "real \<Rightarrow> real \<Rightarrow> real"
  lpow :: "real \<Rightarrow> real \<Rightarrow> real"

section \<open>optimize\_allocation.py: station weights\<close>

text \<open>The weight loop of \<^verbatim>\<open>compute_station_weights\<close>; \<open>weights\<close> is the dictionary built so
  far. \<^verbatim>\<open>s["id"]\<close> raises \<^verbatim>\<open>KeyError\<close> on a row without that column. A missing capacity
  column reads as \<^verbatim>\<open>int("0")\<close>, an unparsable one is caught and reads as 0. The product
  \<^verbatim>\<open>w * hot_multiplier\<close> is a float product: the integer is converted and the result
  rounded to a double before \<^verbatim>\<open>round\<close> sees it.\<close>

fun weights_loop ::
  "(string \<Rightarrow> int option) \<Rightarrow> string \<Rightarrow> real \<Rightarrow> real \<Rightarrow> string \<Rightarrow> row list \<Rightarrow> int pydict
     \<Rightarrow> py_error + int pydict" where
  "weights_loop pint region_hot hot_multiplier base_multiplier cap_field [] weights = Inr weights"
| "weights_loop pint region_hot hot_multiplier base_multiplier cap_field (s # stations) weights =
     (case map_of s ''id'' of
        None \<Rightarrow> Inl (KeyError ''id'')
      | Some sid \<Rightarrow>
          (let region = normalise (dict_get s ''region'' '''');
               cap = (case map_of s cap_field of
                        None \<Rightarrow> 0
                      | Some c \<Rightarrow> (case pint c of None \<Rightarrow> 0 | Some n \<Rightarrow> n))
           in if cap \<le> 0
              then weights_loop pint region_hot hot_multiplier base_multiplier cap_field stations weights
              else
                (let w = cap;
                     w = (if region = region_hot
                          then py_round (fmul (int_to_float w) hot_multiplier)
                          else py_round (fmul (int_to_float w) base_multiplier));
                     w = (if w < 0 then 0 else w)
                 in if 0 < w
                    then weights_loop pint region_hot hot_multiplier base_multiplier cap_field
                           stations (AList.update sid w weights)
                    else weights_loop pint region_hot hot_multiplier base_multiplier cap_field
                           stations weights)))"

definition compute_station_weights ::
  "(string \<Rightarrow> int option) \<Rightarrow> (string \<Rightarrow> real option) \<Rightarrow> row list \<Rightarrow> row \<Rightarrow> string
     \<Rightarrow> py_error + int pydict" where
  "compute_station_weights pint pfloat stations factor vehicle_type =
     (let region_hot = normalise (dict_get factor ''region'' '''');
          expected_volume =
            (case py_float pfloat (get_cell factor ''expected_call_volume'' 0) of
               None \<Rightarrow> 0
             | Some r \<Rightarrow> r);
          hot_multiplier = fadd 1 expected_volume;
          base_multiplier = 1;
          cap_field = (if vehicle_type = ''ambulance'' then ''capacity_ambulance''
                       else if vehicle_type = ''police'' then ''capacity_police''
                       else ''capacity_fire'')
      in weights_loop pint region_hot hot_multiplier base_multiplier cap_field stations [])"

section \<open>optimize\_allocation.py: scenario selection\<close>

text \<open>The search loop of \<^verbatim>\<open>choose_factor_scenario\<close>: the first row whose id equals the
  requested one, \<open>None\<close> when the loop ends without returning.\<close>

fun find_scenario :: "row list \<Rightarrow> string \<Rightarrow> py_error + row option" where
  "find_scenario [] scenario_id = Inr None"
| "find_scenario (row # factors) scenario_id =
     (case map_of row ''id'' of
        None \<Rightarrow> Inl (KeyError ''id'')
      | Some i \<Rightarrow> if i = scenario_id then Inr (Some row) else find_scenario factors scenario_id)"

definition safe_float :: "(string \<Rightarrow> real option) \<Rightarrow> pyval \<Rightarrow> real" where
  "safe_float pfloat x = (case py_float pfloat x of None \<Rightarrow> 0 | Some r \<Rightarrow> r)"

text \<open>\<^verbatim>\<open>max(xs, key=f)\<close> keeps the first item and replaces it only by a strictly greater
  one; it raises \<^verbatim>\<open>ValueError\<close> on an empty list.\<close>

fun max_loop :: "('a \<Rightarrow> real) \<Rightarrow> 'a \<Rightarrow> 'a list \<Rightarrow> 'a" where
  "max_loop key best [] = best"
| "max_loop key best (x # xs) = max_loop key (if key best < key x then x else best) xs"

definition py_max :: "('a \<Rightarrow> real) \<Rightarrow> 'a list \<Rightarrow> py_error + 'a" where
  "py_max key xs = (case xs of [] \<Rightarrow> Inl ValueError | x # rest \<Rightarrow> Inr (max_loop key x rest))"

definition volume_key :: "(string \<Rightarrow> real option) \<Rightarrow> row \<Rightarrow> real" where
  "volume_key pfloat r =
     safe_float pfloat (get_cell r ''expected_call_volume'' 0)"

definition choose_factor_scenario ::
  "(string \<Rightarrow> real option) \<Rightarrow> row list \<Rightarrow> string option \<Rightarrow> py_error + row" where
  "choose_factor_scenario pfloat factors scenario_id =
     (case (case scenario_id of None \<Rightarrow> Inr None | Some sid \<Rightarrow> find_scenario factors sid) of
        Inl e \<Rightarrow> Inl e
      | Inr (Some row) \<Rightarrow> Inr row
      | Inr None \<Rightarrow> py_max (volume_key pfloat) factors)"

section \<open>optimize\_allocation.py: weighted round-robin assignment\<close>

text \<open>\<^verbatim>\<open>build_station_lookup\<close>: id to station row. Its second result, the region map, is
  discarded by its only caller and cannot raise, so it is not modelled.\<close>

fun lookup_loop :: "row list \<Rightarrow> row pydict \<Rightarrow> py_error + row pydict" where
  "lookup_loop [] station_lookup = Inr station_lookup"
| "lookup_loop (s # stations) station_lookup =
     (case map_of s ''id'' of
        None \<Rightarrow> Inl (KeyError ''id'')
      | Some sid \<Rightarrow> lookup_loop stations (AList.update sid s station_lookup))"

definition build_station_lookup :: "row list \<Rightarrow> py_error + row pydict" where
  "build_station_lookup stations = lookup_loop stations []"

text \<open>
  The lists of \<^verbatim>\<open>vehicles_by_type\<close> hold references to the dictionaries of \<^verbatim>\<open>vehicles\<close>,
  which the assignment loop then mutates through them. A reference is modelled as the
  index of the vehicle in \<^verbatim>\<open>vehicles\<close>; the list of vehicles is the store.
\<close>

definition vehicles_by_type_init :: "nat list pydict" where
  "vehicles_by_type_init = [(''ambulance'', []), (''police'', []), (''fire'', [])]"

fun group_loop :: "vehicle list \<Rightarrow> nat \<Rightarrow> nat list pydict \<Rightarrow> py_error + nat list pydict" where
  "group_loop [] i vehicles_by_type = Inr vehicles_by_type"
| "group_loop (v # vehicles) i vehicles_by_type =
     (case map_of v ''type'' of
        None \<Rightarrow> Inl (KeyError ''type'')
      | Some (Flt x) \<Rightarrow> Inl AttributeError
      | Some (Str t) \<Rightarrow>
          (let vtype = normalise t
           in case map_of vehicles_by_type vtype of
                Some vlist \<Rightarrow>
                  group_loop vehicles (Suc i) (AList.update vtype (vlist @ [i]) vehicles_by_type)
              | None \<Rightarrow> group_loop vehicles (Suc i) vehicles_by_type))"

text \<open>The flat weighted list: \<^verbatim>\<open>[sid] * w\<close> for every item of the weight dictionary.\<close>

fun weighted_station_ids :: "int pydict \<Rightarrow> string list" where
  "weighted_station_ids [] = []"
| "weighted_station_ids ((sid, w) # weights) = replicate (nat w) sid @ weighted_station_ids weights"

text \<open>The body of the assignment loop for one vehicle: the two position writes sit in one
  \<^verbatim>\<open>try\<close> whose handler passes, so a station row without a parsable \<^verbatim>\<open>lat\<close> leaves both
  coordinates alone and one without a parsable \<^verbatim>\<open>lon\<close> leaves the longitude alone; the
  station id is written in every case.\<close>

definition move_to_station :: "(string \<Rightarrow> real option) \<Rightarrow> row \<Rightarrow> string \<Rightarrow> vehicle \<Rightarrow> vehicle" where
  "move_to_station pfloat st sid v =
     (let v = (case map_of st ''lat'' of
                 None \<Rightarrow> v
               | Some a \<Rightarrow>
                   (case pfloat a of
                      None \<Rightarrow> v
                    | Some la \<Rightarrow>
                        (let v = AList.update ''lat'' (Flt la) v
                         in case map_of st ''lon'' of
                              None \<Rightarrow> v
                            | Some b \<Rightarrow>
                                (case pfloat b of
                                   None \<Rightarrow> v
                                 | Some lo \<Rightarrow> AList.update ''lon'' (Flt lo) v))))
      in AList.update ''station_id'' (Str sid) v)"

text \<open>\<^verbatim>\<open>for i, v in enumerate(vlist)\<close>, from position \<open>i\<close> on; \<open>ids\<close> is the flat weighted
  list, not empty when the loop is reached. An empty station row is falsy and skipped.\<close>

fun assign_loop ::
  "(string \<Rightarrow> real option) \<Rightarrow> row pydict \<Rightarrow> string list \<Rightarrow> nat \<Rightarrow> nat list \<Rightarrow> vehicle list
     \<Rightarrow> vehicle list" where
  "assign_loop pfloat station_lookup ids i [] vehicles = vehicles"
| "assign_loop pfloat station_lookup ids i (r # vlist) vehicles =
     (let n = length ids;
          sid = ids ! (i mod n)
      in case map_of station_lookup sid of
           None \<Rightarrow> assign_loop pfloat station_lookup ids (Suc i) vlist vehicles
         | Some st \<Rightarrow>
             if st = [] then assign_loop pfloat station_lookup ids (Suc i) vlist vehicles
             else assign_loop pfloat station_lookup ids (Suc i) vlist
                    (vehicles[r := move_to_station pfloat st sid (vehicles ! r)]))"

text \<open>\<^verbatim>\<open>for vtype, vlist in vehicles_by_type.items()\<close>, and the function itself. The
  result is the list of vehicles after the writes made in place, or the exception raised.\<close>

fun types_loop ::
  "(string \<Rightarrow> int option) \<Rightarrow> (string \<Rightarrow> real option) \<Rightarrow> row list \<Rightarrow> row \<Rightarrow> row pydict
     \<Rightarrow> nat list pydict \<Rightarrow> vehicle list \<Rightarrow> py_error + vehicle list" where
  "types_loop pint pfloat stations factor station_lookup [] vehicles = Inr vehicles"
| "types_loop pint pfloat stations factor station_lookup ((vtype, vlist) # by_type) vehicles =
     (if vlist = [] then types_loop pint pfloat stations factor station_lookup by_type vehicles
      else
        (case compute_station_weights pint pfloat stations factor vtype of
           Inl e \<Rightarrow> Inl e
         | Inr weights \<Rightarrow>
             if weights = []
             then types_loop pint pfloat stations factor station_lookup by_type vehicles
             else
               (let ids = weighted_station_ids weights
                in if ids = []
                   then types_loop pint pfloat stations factor station_lookup by_type vehicles
                   else types_loop pint pfloat stations factor station_lookup by_type
                          (assign_loop pfloat station_lookup ids 0 vlist vehicles))))"

definition assign_vehicles_to_stations ::
  "(string \<Rightarrow> int option) \<Rightarrow> (string \<Rightarrow> real option) \<Rightarrow> vehicle list \<Rightarrow> row list \<Rightarrow> row
     \<Rightarrow> py_error + vehicle list" where
  "assign_vehicles_to_stations pint pfloat vehicles stations factor =
     (case build_station_lookup stations of
        Inl e \<Rightarrow> Inl e
      | Inr station_lookup \<Rightarrow>
          (case group_loop vehicles 0 vehicles_by_type_init of
             Inl e \<Rightarrow> Inl e
           | Inr vehicles_by_type \<Rightarrow>
               types_loop pint pfloat stations factor station_lookup vehicles_by_type vehicles))"

section \<open>backend.py: distance\<close>

text \<open>\<^verbatim>\<open>math.radians(x)\<close> is the float product of \<open>x\<close> and the double \<^verbatim>\<open>pi / 180.0\<close>, which is
  \<open>0x1.1df46a2529d39p-6\<close>.\<close>

definition deg_to_rad :: real where
  "deg_to_rad = 5030569068109113 / 288230376151711744"

definition radians :: "real \<Rightarrow> real" where
  "radians x = fmul x deg_to_rad"

text \<open>
  \<^verbatim>\<open>distance_km\<close>, operation by operation. In exact arithmetic the haversine term \<open>a\<close> lies
  between 0 and 1; in doubles its rounded value can exceed 1, and then \<^verbatim>\<open>math.sqrt(1 - a)\<close>
  raises. The result is the distance, or the exception.
\<close>

definition distance_km :: "libm \<Rightarrow> real \<Rightarrow> real \<Rightarrow> real \<Rightarrow> real \<Rightarrow> py_error + real" where
  "distance_km m lat1 lon1 lat2 lon2 =
     (let R = 6371;
          dlat = radians (fsub lat2 lat1);
          dlon = radians (fsub lon2 lon1);
          a = fadd (lpow m (lsin m (fdiv dlat 2)) 2)
                (fmul (fmul (lcos m (radians lat1)) (lcos m (radians lat2)))
                   (lpow m (lsin m (fdiv dlon 2)) 2))
      in case py_sqrt a of
           Inl e \<Rightarrow> Inl e
         | Inr y \<Rightarrow>
             (case py_sqrt (fsub 1 a) of
                Inl e \<Rightarrow> Inl e
              | Inr x \<Rightarrow> Inr (fmul R (fmul 2 (latan2 m y x)))))"

section \<open>backend.py: the dispatch endpoint\<close>

text \<open>The decoded JSON body of the request.\<close>

datatype json =
    JNull
  | JBool bool
  | JNum real
  | JStr string
  | JArr "json list"
  | JObj "(string \<times> json) list"

fun truthy :: "json \<Rightarrow> bool" where
  "truthy JNull = False"
| "truthy (JBool b) = b"
| "truthy (JNum r) = (r \<noteq> 0)"
| "truthy (JStr s) = (s \<noteq> [])"
| "truthy (JArr xs) = (xs \<noteq> [])"
| "truthy (JObj kvs) = (kvs \<noteq> [])"

text \<open>\<^verbatim>\<open>len(x)\<close> raises \<^verbatim>\<open>TypeError\<close> on a number or a boolean.\<close>

fun py_len :: "json \<Rightarrow> py_error + nat" where
  "py_len (JStr s) = Inr (length s)"
| "py_len (JArr xs) = Inr (length xs)"
| "py_len (JObj kvs) = Inr (length kvs)"
| "py_len j = Inl TypeError"

text \<open>\<^verbatim>\<open>x[i]\<close> for \<open>i\<close> in range of a sequence; a JSON object has string keys only, so an
  integer key raises \<^verbatim>\<open>KeyError\<close>.\<close>

fun py_index :: "json \<Rightarrow> nat \<Rightarrow> py_error + json" where
  "py_index (JArr xs) i = Inr (xs ! i)"
| "py_index (JStr s) i = Inr (JStr [s ! i])"
| "py_index (JObj kvs) i = Inl (KeyError ''integer'')"
| "py_index j i = Inl TypeError"

text \<open>\<^verbatim>\<open>float(x)\<close> on a JSON value; \<open>None\<close> is \<^verbatim>\<open>TypeError\<close> or \<^verbatim>\<open>ValueError\<close>, which the
  endpoint catches together.\<close>

fun json_float :: "(string \<Rightarrow> real option) \<Rightarrow> json \<Rightarrow> real option" where
  "json_float pfloat (JNum r) = Some r"
| "json_float pfloat (JBool b) = Some (if b then 1 else 0)"
| "json_float pfloat (JStr s) = pfloat s"
| "json_float pfloat j = None"

text \<open>\<^verbatim>\<open>str(x)\<close>: a string is itself; the text of any other value is the parameter \<open>repr\<close>.\<close>

fun py_str :: "(json \<Rightarrow> string) \<Rightarrow> json \<Rightarrow> string" where
  "py_str repr (JStr s) = s"
| "py_str repr j = repr j"

text \<open>A row of the table \<^verbatim>\<open>vehicles\<close> created by \<^verbatim>\<open>init_db.py\<close>; the table is the list of
  its rows in the order \<^verbatim>\<open>SELECT\<close> returns them.\<close>

record vehicle_row =
  id_col :: string
  type_col :: string
  lat_col :: real
  lon_col :: real
  status_col :: string
  station_id_col :: string

datatype response =
    Assigned string "real \<times> real" "real \<times> real"
  | Error nat string
  | Uncaught py_error

text \<open>The validation of \<^verbatim>\<open>location\<close> at the head of \<^verbatim>\<open>request_unit\<close>. An uncaught exception
  is answered by the framework with status 500.\<close>

definition read_location :: "(string \<Rightarrow> real option) \<Rightarrow> json option \<Rightarrow> response + real \<times> real" where
  "read_location pfloat loc =
     (case loc of
        None \<Rightarrow> Inl (Error 400 ''Invalid location'')
      | Some l \<Rightarrow>
          if \<not> truthy l then Inl (Error 400 ''Invalid location'')
          else
            (case py_len l of
               Inl e \<Rightarrow> Inl (Uncaught e)
             | Inr n \<Rightarrow>
                 if n \<noteq> 2 then Inl (Error 400 ''Invalid location'')
                 else
                   (case py_index l 0 of
                      Inl e \<Rightarrow> Inl (Uncaught e)
                    | Inr a \<Rightarrow>
                        (case json_float pfloat a of
                           None \<Rightarrow> Inl (Error 400 ''Location must be numeric [lat, lon]'')
                         | Some lat \<Rightarrow>
                             (case py_index l 1 of
                                Inl e \<Rightarrow> Inl (Uncaught e)
                              | Inr b \<Rightarrow>
                                  (case json_float pfloat b of
                                     None \<Rightarrow> Inl (Error 400 ''Location must be numeric [lat, lon]'')
                                   | Some lon \<Rightarrow> Inr (lat, lon)))))))"

text \<open>\<^verbatim>\<open>SELECT * FROM vehicles WHERE type = ? AND status = 'available'\<close>\<close>

definition select_available :: "vehicle_row list \<Rightarrow> string \<Rightarrow> vehicle_row list" where
  "select_available db req_type = filter (\<lambda>v. type_col v = req_type \<and> status_col v = ''available'') db"

text \<open>\<^verbatim>\<open>UPDATE vehicles SET status = 'busy' WHERE id = ?\<close>\<close>

definition mark_busy :: "vehicle_row list \<Rightarrow> string \<Rightarrow> vehicle_row list" where
  "mark_busy db i = map (\<lambda>v. if id_col v = i then v\<lparr>status_col := ''busy''\<rparr> else v) db"

text \<open>The search for the closest candidate; \<open>min_dist = None\<close> is \<^verbatim>\<open>float('inf')\<close>. An
  exception raised by \<^verbatim>\<open>distance_km\<close> leaves the loop.\<close>

fun closest_loop ::
  "libm \<Rightarrow> real \<Rightarrow> real \<Rightarrow> vehicle_row list \<Rightarrow> vehicle_row option \<Rightarrow> real option
     \<Rightarrow> py_error + vehicle_row option" where
  "closest_loop m lat lon [] best_unit min_dist = Inr best_unit"
| "closest_loop m lat lon (v # candidates) best_unit min_dist =
     (case distance_km m lat lon (lat_col v) (lon_col v) of
        Inl e \<Rightarrow> Inl e
      | Inr d \<Rightarrow>
          if (case min_dist of None \<Rightarrow> True | Some md \<Rightarrow> d < md)
          then closest_loop m lat lon candidates (Some v) (Some d)
          else closest_loop m lat lon candidates best_unit min_dist)"

text \<open>\<^verbatim>\<open>request_unit\<close>: the response and the table after the call. An exception that nothing
  catches is answered with status 500, before the \<^verbatim>\<open>UPDATE\<close>.\<close>

definition request_unit ::
  "libm \<Rightarrow> (json \<Rightarrow> string) \<Rightarrow> (string \<Rightarrow> real option) \<Rightarrow> json \<Rightarrow> vehicle_row list
     \<Rightarrow> response \<times> vehicle_row list" where
  "request_unit m repr pfloat body db =
     (case (if truthy body then body else JObj []) of
        JObj data \<Rightarrow>
          (let req_type = normalise (py_str repr (dict_get data ''type'' (JStr '''')));
               loc = map_of data ''location''
           in case read_location pfloat loc of
                Inl err \<Rightarrow> (err, db)
              | Inr (lat, lon) \<Rightarrow>
                  (let candidates = select_available db req_type
                   in if candidates = [] then (Error 400 ''No available unit'', db)
                      else
                        (case closest_loop m lat lon candidates None None of
                           Inl e \<Rightarrow> (Uncaught e, db)
                         | Inr None \<Rightarrow> (Error 500 ''Error finding closest unit'', db)
                         | Inr (Some best_unit) \<Rightarrow>
                             (Assigned (id_col best_unit) (lat_col best_unit, lon_col best_unit) (lat, lon),
                              mark_busy db (id_col best_unit)))))
      | _ \<Rightarrow> (Uncaught AttributeError, db))"

section \<open>Vocabulary of the properties\<close>

text \<open>The two answers of \<^verbatim>\<open>request_unit\<close> to a bad location, both with status 400.\<close>

definition invalid_location_error :: "response \<Rightarrow> bool" where
  "invalid_location_error r \<longleftrightarrow>
     r = Error 400 ''Invalid location'' \<or> r = Error 400 ''Location must be numeric [lat, lon]''"

text \<open>The locations the endpoint rejects by design: absent or null, a string, array or
  object whose length is not 2, an array of two entries one of which \<^verbatim>\<open>float\<close> refuses.\<close>

definition rejected_location :: "(string \<Rightarrow> real option) \<Rightarrow> json option \<Rightarrow> bool" where
  "rejected_location pfloat loc =
     (case loc of
        None \<Rightarrow> True
      | Some JNull \<Rightarrow> True
      | Some (JArr xs) \<Rightarrow>
          length xs \<noteq> 2 \<or> json_float pfloat (xs ! 0) = None \<or> json_float pfloat (xs ! 1) = None
      | Some (JStr s) \<Rightarrow> length s \<noteq> 2
      | Some (JObj kvs) \<Rightarrow> length kvs \<noteq> 2
      | Some _ \<Rightarrow> False)"

text \<open>The capacity column read for a vehicle type, and the expected call volume of a
  scenario, as \<^const>\<open>compute_station_weights\<close> takes them.\<close>

definition capacity_field :: "string \<Rightarrow> string" where
  "capacity_field vehicle_type =
     (if vehicle_type = ''ambulance'' then ''capacity_ambulance''
      else if vehicle_type = ''police'' then ''capacity_police''
      else ''capacity_fire'')"

definition expected_volume :: "(string \<Rightarrow> real option) \<Rightarrow> row \<Rightarrow> real" where
  "expected_volume pfloat factor =
     (case map_of factor ''expected_call_volume'' of
        None \<Rightarrow> 0
      | Some x \<Rightarrow> (case pfloat x of None \<Rightarrow> 0 | Some r \<Rightarrow> r))"


text \<open>
  The weight of one station as amended: no weight when the capacity read for the type is
  missing, unparsable, zero or negative; otherwise, when the two regions are equal after
  trimming and lower-casing, the product of the capacity and of 1 + expected call volume as
  doubles give it (the sum rounded, the capacity converted, the product rounded), rounded
  to the nearest integer, a tie to the even one; otherwise the capacity itself, which a
  capacity of \<open>2 ^ 53\<close> or more loses to the conversion to a double; no weight when the
  result is not positive.
\<close>

definition station_weight ::
  "(string \<Rightarrow> int option) \<Rightarrow> (string \<Rightarrow> real option) \<Rightarrow> row \<Rightarrow> string \<Rightarrow> row \<Rightarrow> int option" where
  "station_weight pint pfloat factor vehicle_type s =
     (case map_of s (capacity_field vehicle_type) of
        None \<Rightarrow> None
      | Some c \<Rightarrow>
          (case pint c of
             None \<Rightarrow> None
           | Some cap \<Rightarrow>
               if cap \<le> 0 then None
               else
                 (let w = (if normalise (dict_get s ''region'' '''') = normalise (dict_get factor ''region'' '''')
                           then py_round (fmul (int_to_float cap) (fadd 1 (expected_volume pfloat factor)))
                           else if cap < 2 ^ 53 then cap
                           else py_round (fmul (int_to_float cap) 1))
                  in if w \<le> 0 then None else Some w)))"

text \<open>The entry a station contributes to the weight dictionary.\<close>

definition weight_entry ::
  "(string \<Rightarrow> int option) \<Rightarrow> (string \<Rightarrow> real option) \<Rightarrow> row \<Rightarrow> string \<Rightarrow> row
     \<Rightarrow> (string \<times> int) option" where
  "weight_entry pint pfloat factor vehicle_type s =
     (case map_of s ''id'' of
        None \<Rightarrow> None
      | Some sid \<Rightarrow> map_option (Pair sid) (station_weight pint pfloat factor vehicle_type s))"

text \<open>The normalised type of a vehicle, when it has one, and the three types the rebalancer
  groups by.\<close>

definition normalised_type :: "vehicle \<Rightarrow> string option" where
  "normalised_type v = (case map_of v ''type'' of Some (Str t) \<Rightarrow> Some (normalise t) | _ \<Rightarrow> None)"

definition known_types :: "string set" where
  "known_types = {''ambulance'', ''police'', ''fire''}"

text \<open>The units of one type, as positions in the list of vehicles, in listed order.\<close>

definition units_of_type :: "vehicle list \<Rightarrow> string \<Rightarrow> nat list" where
  "units_of_type vehicles vtype =
     filter (\<lambda>j. normalised_type (vehicles ! j) = Some vtype) [0..<length vehicles]"

text \<open>The same for a tail of the list whose first element sits at position \<open>i\<close>.\<close>

definition units_from :: "vehicle list \<Rightarrow> nat \<Rightarrow> string \<Rightarrow> nat list" where
  "units_from vehicles i vtype =
     filter (\<lambda>j. normalised_type (vehicles ! (j - i)) = Some vtype) [i..<i + length vehicles]"

text \<open>What the assignment loop does to the \<open>k\<close>-th unit of its list, given the flat weighted
  list \<open>ids\<close>; and what the rebalancer does to the \<open>k\<close>-th unit of a type.\<close>

definition placed :: "(string \<Rightarrow> real option) \<Rightarrow> row pydict \<Rightarrow> string list \<Rightarrow> nat \<Rightarrow> vehicle \<Rightarrow> vehicle" where
  "placed pfloat station_lookup ids k v =
     (case map_of station_lookup (ids ! (k mod length ids)) of
        None \<Rightarrow> v
      | Some st \<Rightarrow> if st = [] then v else move_to_station pfloat st (ids ! (k mod length ids)) v)"

definition type_target ::
  "(string \<Rightarrow> int option) \<Rightarrow> (string \<Rightarrow> real option) \<Rightarrow> row list \<Rightarrow> row \<Rightarrow> row pydict \<Rightarrow> string
     \<Rightarrow> nat \<Rightarrow> vehicle \<Rightarrow> vehicle" where
  "type_target pint pfloat stations factor station_lookup vtype k v =
     (case compute_station_weights pint pfloat stations factor vtype of
        Inl e \<Rightarrow> v
      | Inr weights \<Rightarrow>
          if weights = [] \<or> weighted_station_ids weights = [] then v
          else placed pfloat station_lookup (weighted_station_ids weights) k v)"

text \<open>The position of a station, when both of its coordinates parse.\<close>

definition station_position :: "(string \<Rightarrow> real option) \<Rightarrow> row \<Rightarrow> (real \<times> real) option" where
  "station_position pfloat st =
     (case map_of st ''lat'' of
        None \<Rightarrow> None
      | Some a \<Rightarrow>
          (case pfloat a of
             None \<Rightarrow> None
           | Some la \<Rightarrow>
               (case map_of st ''lon'' of
                  None \<Rightarrow> None
                | Some b \<Rightarrow> (case pfloat b of None \<Rightarrow> None | Some lo \<Rightarrow> Some (la, lo)))))"

section \<open>Example data\<close>

text \<open>The values of \<^verbatim>\<open>int\<close> and \<^verbatim>\<open>float\<close> on the strings of the examples; \<^verbatim>\<open>float("1.30")\<close> is
  the double \<open>0x1.4cccccccccccdp+0\<close>.\<close>

definition example_int :: "string \<Rightarrow> int option" where
  "example_int s =
     (if s = ''1'' then Some 1 else if s = ''2'' then Some 2 else if s = ''3'' then Some 3
      else if s = ''25'' then Some 25 else None)"

definition example_float :: "string \<Rightarrow> real option" where
  "example_float s =
     (if s = ''0'' then Some 0 else if s = ''0.5'' then Some (1 / 2)
      else if s = ''1.0'' then Some 1 else if s = ''2.5'' then Some (5 / 2)
      else if s = ''1.30'' then Some (5854679515581645 / 4503599627370496) else None)"

text \<open>A station housing 25 ambulances in the region of a scenario whose expected call
  volume is written \<^verbatim>\<open>1.30\<close>.\<close>

definition example_station_25 :: row where
  "example_station_25 =
     [(''id'', ''S3''), (''region'', ''east''), (''lat'', ''1.0''), (''lon'', ''1.0''),
      (''capacity_ambulance'', ''25'')]"

definition example_factor_130 :: row where
  "example_factor_130 = [(''id'', ''3''), (''region'', ''east''), (''expected_call_volume'', ''1.30'')]"

text \<open>
  An instance of the C library for the examples. On the arguments of
  \<^verbatim>\<open>distance_km(8, 1, -8, -179)\<close> the sine and the cosine are the doubles Python's \<^verbatim>\<open>math\<close>
  module returns there; everywhere else each function is the mathematical one, rounded to a
  double, and a square is the rounded product.
\<close>

definition example_libm :: libm where
  "example_libm =
     \<lparr>lsin = (\<lambda>x. if x = - 5030569068109113 / 36028797018963968
                    then - 5014239404989977 / 36028797018963968
                  else if x = - 884279719003555 / 562949953421312 then - 1
                  else rnd (sin x)),
      lcos = (\<lambda>x. if x = 5030569068109113 / 36028797018963968
                       \<or> x = - 5030569068109113 / 36028797018963968
                    then 4459770905381437 / 4503599627370496
                  else rnd (cos x)),
      latan2 = (\<lambda>y x. rnd (if 0 < x then arctan (y / x)
                            else if x < 0 then (if 0 \<le> y then arctan (y / x) + pi
                                                else arctan (y / x) - pi)
                            else if 0 < y then pi / 2 else if y < 0 then - pi / 2 else 0)),
      lpow = (\<lambda>x y. if y = 2 then rnd (x * x) else rnd (x powr y))\<rparr>"

text \<open>A table with one available ambulance at the antipode of \<open>(8, 1)\<close>, and the request
  for an ambulance at \<open>(8, 1)\<close>.\<close>

definition example_db_far :: "vehicle_row list" where
  "example_db_far =
     [\<lparr>id_col = ''A9'', type_col = ''ambulance'', lat_col = - 8, lon_col = - 179,
        status_col = ''available'', station_id_col = ''S9''\<rparr>]"

definition example_request_far :: "(string \<times> json) list" where
  "example_request_far = [(''type'', JStr ''ambulance''), (''location'', JArr [JNum 8, JNum 1])]"

text \<open>Two stations: the first in a region written with a leading blank, housing two
  ambulances; the second housing one ambulance and one police car.\<close>

definition example_stations :: "row list" where
  "example_stations =
     [[(''id'', ''S1''), (''region'', '' north''), (''lat'', ''1.0''), (''lon'', ''2.5''),
       (''capacity_ambulance'', ''2'')],
      [(''id'', ''S2''), (''region'', ''south''), (''lat'', ''2.5''), (''lon'', ''1.0''),
       (''capacity_ambulance'', ''1''), (''capacity_police'', ''1'')]]"

definition example_factor :: row where
  "example_factor = [(''id'', ''1''), (''region'', ''north''), (''expected_call_volume'', ''1.0'')]"

text \<open>Four vehicles as read from the file: a busy ambulance, a police car, a boat and an
  available ambulance.\<close>

definition example_vehicle :: "string \<Rightarrow> string \<Rightarrow> string \<Rightarrow> vehicle" where
  "example_vehicle i t s =
     [(''id'', Str i), (''type'', Str t), (''lat'', Str ''0''), (''lon'', Str ''0''), (''status'', Str s)]"

definition example_vehicles :: "vehicle list" where
  "example_vehicles =
     [example_vehicle ''A1'' ''ambulance'' ''busy'',
      example_vehicle ''P1'' ''police'' ''available'',
      example_vehicle ''B1'' ''boat'' ''available'',
      example_vehicle ''A2'' ''ambulance'' ''available'']"

text \<open>The same four vehicles after the rebalancer has run on the example stations and
  scenario (lemma \<open>example_run\<close> below).\<close>

definition example_vehicles_after :: "vehicle list" where
  "example_vehicles_after =
     [[(''id'', Str ''A1''), (''type'', Str ''ambulance''), (''lat'', Flt 1), (''lon'', Flt (5 / 2)),
       (''status'', Str ''busy''), (''station_id'', Str ''S1'')],
      [(''id'', Str ''P1''), (''type'', Str ''police''), (''lat'', Flt (5 / 2)), (''lon'', Flt 1),
       (''status'', Str ''available''), (''station_id'', Str ''S2'')],
      example_vehicle ''B1'' ''boat'' ''available'',
      [(''id'', Str ''A2''), (''type'', Str ''ambulance''), (''lat'', Flt 1), (''lon'', Flt (5 / 2)),
       (''status'', Str ''available''), (''station_id'', Str ''S1'')]]"

text \<open>The four vehicles again, all of them available.\<close>

definition example_vehicles_idle :: "vehicle list" where
  "example_vehicles_idle =
     [example_vehicle ''A1'' ''ambulance'' ''available'',
      example_vehicle ''P1'' ''police'' ''available'',
      example_vehicle ''B1'' ''boat'' ''available'',
      example_vehicle ''A2'' ''ambulance'' ''available'']"

text \<open>Two scenarios, with ids 1 and 2.\<close>

definition example_factors :: "row list" where
  "example_factors =
     [[(''id'', ''1''), (''region'', ''north''), (''expected_call_volume'', ''0.5'')],
      [(''id'', ''2''), (''region'', ''south''), (''expected_call_volume'', ''1.0'')]]"

text \<open>A small table: one busy ambulance, two available ambulances at the same place, one
  available police car.\<close>

definition example_db :: "vehicle_row list" where
  "example_db =
     [\<lparr>id_col = ''A1'', type_col = ''ambulance'', lat_col = 0, lon_col = 0,
        status_col = ''busy'', station_id_col = ''S1''\<rparr>,
      \<lparr>id_col = ''A2'', type_col = ''ambulance'', lat_col = 1, lon_col = 2,
        status_col = ''available'', station_id_col = ''S1''\<rparr>,
      \<lparr>id_col = ''A3'', type_col = ''ambulance'', lat_col = 1, lon_col = 2,
        status_col = ''available'', station_id_col = ''S2''\<rparr>,
      \<lparr>id_col = ''P1'', type_col = ''police'', lat_col = 1, lon_col = 2,
        status_col = ''available'', station_id_col = ''S2''\<rparr>]"

definition example_request :: "string \<Rightarrow> (string \<times> json) list" where
  "example_request t = [(''type'', JStr t), (''location'', JArr [JNum 1, JNum 2])]"

chapter \<open>Properties\<close>

section \<open>Floats\<close>

text \<open>How \<open>rnd\<close> evaluates on a number whose leading bit is known, and that it keeps the
  integers below \<open>2 ^ 53\<close>.\<close>

lemma py_round_of_int: "py_round (of_int n) = n"
  by (simp add: py_round_def)

lemma ulp_eq:
  assumes "2 powr of_int e \<le> \<bar>x\<bar>" and "\<bar>x\<bar> < 2 powr of_int (e + 1)" and "- 1022 \<le> e"
  shows "ulp x = 2 powr of_int (e - 52)"
proof -
  have "(0::real) < 2 powr of_int e" by simp
  then have "0 < \<bar>x\<bar>" using assms(1) by linarith
  then have "\<lfloor>log 2 \<bar>x\<bar>\<rfloor> = e"
    using assms(1,2) by (simp add: floor_log_eq_powr_iff)
  then show ?thesis using assms(3) by (simp add: ulp_def max_def)
qed

lemma rnd_eval_ge1:
  assumes "2 ^ n \<le> \<bar>x\<bar>" and "\<bar>x\<bar> < 2 ^ Suc n" and "n \<le> 52"
  shows "rnd x = of_int (py_round (x * 2 ^ (52 - n))) / 2 ^ (52 - n)"
proof -
  have "2 powr of_int (int n) \<le> \<bar>x\<bar>" "\<bar>x\<bar> < 2 powr of_int (int n + 1)"
    using assms(1,2) by (simp_all add: powr_realpow powr_add)
  then have u: "ulp x = 2 powr of_int (int n - 52)" by (rule ulp_eq) simp
  have eq: "int n - 52 = - int (52 - n)" using assms(3) by simp
  have "ulp x = 2 powr of_int (- int (52 - n))" by (simp only: u eq)
  then have "ulp x = 1 / 2 ^ (52 - n)"
    by (simp only: of_int_minus powr_minus_divide of_int_of_nat_eq powr_realpow [OF zero_less_numeral])
  moreover have "(0::real) < 2 ^ n" by simp
  then have "0 < \<bar>x\<bar>" using assms(1) by linarith
  then have "x \<noteq> 0" by simp
  ultimately show ?thesis by (simp add: rnd_def)
qed

lemma rnd_eval_lt1:
  assumes "1 / 2 ^ Suc n \<le> \<bar>x\<bar>" and "\<bar>x\<bar> < 1 / 2 ^ n" and "n < 1022"
  shows "rnd x = of_int (py_round (x * 2 ^ (n + 53))) / 2 ^ (n + 53)"
proof -
  have a: "(2::real) powr of_int (- int (Suc n)) = 1 / 2 ^ Suc n"
    by (simp only: of_int_minus powr_minus_divide of_int_of_nat_eq powr_realpow [OF zero_less_numeral])
  have b: "(2::real) powr of_int (- int (Suc n) + 1) = 1 / 2 ^ n"
  proof -
    have "- int (Suc n) + 1 = - int n" by simp
    then show ?thesis
      by (simp only: of_int_minus powr_minus_divide of_int_of_nat_eq powr_realpow [OF zero_less_numeral])
  qed
  have "2 powr of_int (- int (Suc n)) \<le> \<bar>x\<bar>" "\<bar>x\<bar> < 2 powr of_int (- int (Suc n) + 1)"
    using assms(1,2) unfolding a b by simp_all
  then have u: "ulp x = 2 powr of_int (- int (Suc n) - 52)"
    by (rule ulp_eq) (use assms(3) in simp)
  have eq: "- int (Suc n) - 52 = - int (n + 53)" by simp
  have "ulp x = 2 powr of_int (- int (n + 53))" by (simp only: u eq)
  then have "ulp x = 1 / 2 ^ (n + 53)"
    by (simp only: of_int_minus powr_minus_divide of_int_of_nat_eq powr_realpow [OF zero_less_numeral])
  moreover have "(0::real) < 1 / 2 ^ Suc n" by simp
  then have "0 < \<bar>x\<bar>" using assms(1) by linarith
  then have "x \<noteq> 0" by simp
  ultimately show ?thesis by (simp add: rnd_def)
qed

lemma rnd_zero: "rnd 0 = 0"
  by (simp add: rnd_def)

lemma rnd_of_int:
  assumes "\<bar>n\<bar> < 2 ^ 53"
  shows "rnd (of_int n) = of_int n"
proof (cases "n = 0")
  case True
  then show ?thesis by (simp add: rnd_zero)
next
  case False
  then have "1 \<le> nat \<bar>n\<bar>" by simp
  from ex_power_ivl1 [OF _ this, of 2] obtain m where
    m: "2 ^ m \<le> nat \<bar>n\<bar>" "nat \<bar>n\<bar> < 2 ^ (m + 1)" by auto
  have "(2::nat) ^ m < 2 ^ 53"
  proof -
    have "nat \<bar>n\<bar> < 2 ^ 53" using assms by (simp add: nat_less_iff)
    then show ?thesis using m(1) by linarith
  qed
  then have "m < 53" by (rule power_less_imp_less_exp [rotated]) simp
  then have m52: "m \<le> 52" by simp
  have abs: "\<bar>real_of_int n\<bar> = real (nat \<bar>n\<bar>)" by simp
  have lo: "2 ^ m \<le> \<bar>real_of_int n\<bar>"
    unfolding abs using m(1) by (metis of_nat_le_iff of_nat_numeral of_nat_power)
  have hi: "\<bar>real_of_int n\<bar> < 2 ^ Suc m"
    unfolding abs using m(2) by (metis Suc_eq_plus1 of_nat_less_iff of_nat_numeral of_nat_power)
  have "real_of_int n * 2 ^ (52 - m) = of_int (n * 2 ^ (52 - m))" by simp
  then have "py_round (real_of_int n * 2 ^ (52 - m)) = n * 2 ^ (52 - m)"
    by (simp only: py_round_of_int)
  then show ?thesis
    using rnd_eval_ge1 [OF lo hi m52] by simp
qed

lemma rnd_one: "rnd 1 = 1"
  using rnd_of_int [of 1] by simp

lemma rnd_numeral: "(numeral k :: int) < 2 ^ 53 \<Longrightarrow> rnd (numeral k) = numeral k"
  using rnd_of_int [of "numeral k"] by simp

lemma rnd_neg_numeral: "(numeral k :: int) < 2 ^ 53 \<Longrightarrow> rnd (- numeral k) = - numeral k"
  using rnd_of_int [of "- numeral k"] by simp

lemmas float_eval =
  fadd_def fsub_def fmul_def fdiv_def int_to_float_def rnd_zero rnd_one rnd_numeral rnd_neg_numeral

lemma unboosted_weight:
  assumes "0 < cap" and "cap < 2 ^ 53"
  shows "py_round (fmul (int_to_float cap) 1) = cap"
proof -
  have "\<bar>cap\<bar> < 2 ^ 53" using assms by simp
  then have "rnd (of_int cap) = of_int cap" by (rule rnd_of_int)
  then show ?thesis by (simp add: fmul_def int_to_float_def py_round_of_int)
qed

section \<open>Station weights\<close>

lemma update_append: "k \<notin> fst ` set al \<Longrightarrow> AList.update k v al = al @ [(k, v)]"
  by (induction al) auto

lemma expected_volume_eq:
  "(case py_float pfloat (get_cell factor ''expected_call_volume'' 0) of None \<Rightarrow> 0 | Some r \<Rightarrow> r)
     = expected_volume pfloat factor"
  by (simp add: expected_volume_def get_cell_def split: option.splits)

lemma weights_loop_entries:
  assumes "\<forall>s\<in>set stations. map_of s ''id'' \<noteq> None"
      and "distinct (map (\<lambda>s. map_of s ''id'') stations)"
      and "\<forall>s\<in>set stations. \<forall>sid. map_of s ''id'' = Some sid \<longrightarrow> sid \<notin> fst ` set weights"
  shows "weights_loop pint (normalise (dict_get factor ''region'' ''''))
           (fadd 1 (expected_volume pfloat factor)) 1 (capacity_field vehicle_type) stations weights
         = Inr (weights @ List.map_filter (weight_entry pint pfloat factor vehicle_type) stations)"
  using assms
proof (induction stations arbitrary: weights)
  case Nil
  show ?case by simp
next
  case (Cons s stations)
  from Cons.prems(1) obtain sid where sid: "map_of s ''id'' = Some sid" by auto
  have fresh: "sid \<notin> fst ` set weights" using Cons.prems(3) sid by simp
  have rest: "\<forall>t\<in>set stations. \<forall>i. map_of t ''id'' = Some i \<longrightarrow> i \<notin> fst ` set (weights @ [(sid, w)])" for w
  proof (intro ballI allI impI)
    fix t i assume t: "t \<in> set stations" and i: "map_of t ''id'' = Some i"
    have "i \<notin> fst ` set weights" using Cons.prems(3) t i by simp
    moreover have "i \<noteq> sid"
    proof
      assume "i = sid"
      then have "Some sid \<in> (\<lambda>s. map_of s ''id'') ` set stations" using t i by force
      then show False using Cons.prems(2) sid by simp
    qed
    ultimately show "i \<notin> fst ` set (weights @ [(sid, w)])" by auto
  qed
  have ih: "weights_loop pint (normalise (dict_get factor ''region'' ''''))
           (fadd 1 (expected_volume pfloat factor)) 1 (capacity_field vehicle_type) stations ws
         = Inr (ws @ List.map_filter (weight_entry pint pfloat factor vehicle_type) stations)"
    if "\<forall>t\<in>set stations. \<forall>i. map_of t ''id'' = Some i \<longrightarrow> i \<notin> fst ` set ws" for ws
    using Cons.IH [of ws] Cons.prems(1,2) that by simp
  have ih0: "weights_loop pint (normalise (dict_get factor ''region'' ''''))
           (fadd 1 (expected_volume pfloat factor)) 1 (capacity_field vehicle_type) stations weights
         = Inr (weights @ List.map_filter (weight_entry pint pfloat factor vehicle_type) stations)"
    using ih [of weights] Cons.prems(3) by simp
  show ?case
  proof (cases "station_weight pint pfloat factor vehicle_type s")
    case None
    then have "weight_entry pint pfloat factor vehicle_type s = None"
      by (simp add: weight_entry_def sid)
    moreover have "weights_loop pint (normalise (dict_get factor ''region'' ''''))
           (fadd 1 (expected_volume pfloat factor)) 1 (capacity_field vehicle_type) (s # stations) weights
         = weights_loop pint (normalise (dict_get factor ''region'' ''''))
           (fadd 1 (expected_volume pfloat factor)) 1 (capacity_field vehicle_type) stations weights"
      using None sid
      by (auto simp: station_weight_def Let_def unboosted_weight split: option.splits if_splits)
    ultimately show ?thesis using ih0 by simp
  next
    case (Some w)
    then have "weight_entry pint pfloat factor vehicle_type s = Some (sid, w)"
      by (simp add: weight_entry_def sid)
    moreover have "weights_loop pint (normalise (dict_get factor ''region'' ''''))
           (fadd 1 (expected_volume pfloat factor)) 1 (capacity_field vehicle_type) (s # stations) weights
         = weights_loop pint (normalise (dict_get factor ''region'' ''''))
           (fadd 1 (expected_volume pfloat factor)) 1 (capacity_field vehicle_type) stations
           (AList.update sid w weights)"
      using Some sid
      by (auto simp: station_weight_def Let_def unboosted_weight split: option.splits if_splits)
    ultimately show ?thesis
      using ih [of "weights @ [(sid, w)]"] rest [of w] fresh
      by (simp add: update_append)
  qed
qed




text \<open>The rounding of the doubles decides: with capacity 25 and expected call volume 1.30
  the sum is the double next to 2.3, which lies below it (\<open>2.2999999999999998...\<close>), the
  product is \<open>57.49999999999999\<close> and the weight 57, where the product of the decimal
  numbers is 57.5.\<close>

lemma example_weight_rounding:
  "compute_station_weights example_int example_float [example_station_25] example_factor_130
     ''ambulance'' = Inr [(''S3'', 57)]"
proof -
  have a: "fadd 1 (5854679515581645 / 4503599627370496) = 2589569785738035 / 1125899906842624"
    unfolding fadd_def by (subst rnd_eval_ge1 [where n = 1]) (simp_all add: py_round_def)
  have b: "fmul 25 (2589569785738035 / 1125899906842624) = 8092405580431359 / 140737488355328"
    unfolding fmul_def by (subst rnd_eval_ge1 [where n = 5]) (simp_all add: py_round_def)
  have c: "py_round (8092405580431359 / 140737488355328) = 57"
    by (simp add: py_round_def)
  show ?thesis
    by (simp add: compute_station_weights_def example_station_25_def example_factor_130_def
        example_int_def example_float_def get_cell_def dict_get_def normalise_def strip_def
        lower_def lower_char_def is_space_def int_to_float_def rnd_numeral a b c)
qed

section \<open>Scenario selection\<close>

lemma max_loop_first_max:
  "\<exists>pre r post. b # xs = pre @ r # post \<and> max_loop key b xs = r
      \<and> (\<forall>x\<in>set pre. key x < key r) \<and> (\<forall>x\<in>set post. key x \<le> key r)"
proof (induction xs arbitrary: b)
  case Nil
  have "[b] = [] @ b # []" by simp
  then show ?case by force
next
  case (Cons v xs)
  show ?case
  proof (cases "key b < key v")
    case True
    from Cons.IH [of v] obtain pre r post where
      h: "v # xs = pre @ r # post" "max_loop key v xs = r"
         "\<forall>x\<in>set pre. key x < key r" "\<forall>x\<in>set post. key x \<le> key r"
      by blast
    have "key v \<le> key r"
    proof (cases pre)
      case Nil
      with h(1) show ?thesis by simp
    next
      case (Cons p ps)
      with h(1) have "v \<in> set pre" by simp
      with h(3) show ?thesis by fastforce
    qed
    with True have "key b < key r" by simp
    then have "\<forall>x\<in>set (b # pre). key x < key r" using h(3) by simp
    moreover have "b # v # xs = (b # pre) @ r # post" using h(1) by simp
    moreover have "max_loop key b (v # xs) = r" using True h(2) by simp
    ultimately show ?thesis using h(4) by blast
  next
    case False
    from Cons.IH [of b] obtain pre r post where
      h: "b # xs = pre @ r # post" "max_loop key b xs = r"
         "\<forall>x\<in>set pre. key x < key r" "\<forall>x\<in>set post. key x \<le> key r"
      by blast
    have run: "max_loop key b (v # xs) = r" using False h(2) by simp
    show ?thesis
    proof (cases pre)
      case Nil
      with h(1) have rb: "r = b" "post = xs" by simp_all
      have "b # v # xs = [] @ r # (v # post)" using rb by simp
      moreover have "\<forall>x\<in>set (v # post). key x \<le> key r" using h(4) False rb by auto
      ultimately show ?thesis using run by (metis empty_iff list.set(1))
    next
      case (Cons p ps)
      with h(1) have pb: "p = b" "xs = ps @ r # post" by simp_all
      have "key b < key r" using h(3) Cons pb by simp
      with False have "key v < key r" by simp
      with h(3) Cons pb have "\<forall>x\<in>set (b # v # ps). key x < key r" by simp
      moreover have "b # v # xs = (b # v # ps) @ r # post" using pb by simp
      ultimately show ?thesis using run h(4) by blast
    qed
  qed
qed

lemma find_scenario_none:
  "\<forall>r\<in>set factors. \<exists>i. map_of r ''id'' = Some i \<and> i \<noteq> sid \<Longrightarrow> find_scenario factors sid = Inr None"
  by (induction factors) auto

text \<open>
  Claim C2 says that an explicit scenario id matching no row makes the selection fail with
  a scenario-not-found error. The code has no such error: the search loop falls through to
  the fallback, which returns a row. Here id 7 is asked of scenarios 1 and 2, and scenario 2
  (the larger expected call volume) is returned.
\<close>

theorem choose_factor_scenario_unknown_id_counterexample:
  "choose_factor_scenario example_float example_factors (Some ''7'')
     = Inr [(''id'', ''2''), (''region'', ''south''), (''expected_call_volume'', ''1.0'')]"
  by (simp add: choose_factor_scenario_def example_factors_def py_max_def volume_key_def
      safe_float_def get_cell_def example_float_def)

text \<open>
  Claim C2, amended. For every non-empty list of scenarios that all have an id, and every
  requested id that none of them has, the selection returns a scenario: the first one of
  maximal expected call volume (every earlier row has a strictly smaller volume, every later
  row a volume not greater).
\<close>

theorem choose_factor_scenario_fallback:
  assumes "factors \<noteq> []"
      and "\<forall>r\<in>set factors. \<exists>i. map_of r ''id'' = Some i \<and> i \<noteq> sid"
  shows "\<exists>pre r post. factors = pre @ r # post
           \<and> choose_factor_scenario pfloat factors (Some sid) = Inr r
           \<and> (\<forall>x\<in>set pre. volume_key pfloat x < volume_key pfloat r)
           \<and> (\<forall>x\<in>set post. volume_key pfloat x \<le> volume_key pfloat r)"
proof -
  from assms(1) obtain b rest where f: "factors = b # rest" by (cases factors) auto
  have "choose_factor_scenario pfloat factors (Some sid) = Inr (max_loop (volume_key pfloat) b rest)"
    using find_scenario_none [OF assms(2)] by (simp add: choose_factor_scenario_def py_max_def f)
  then show ?thesis using max_loop_first_max [of b rest "volume_key pfloat"] f by simp
qed

theorem choose_factor_scenario_fallback_witness:
  "\<exists>pre r post. example_factors = pre @ r # post
      \<and> choose_factor_scenario example_float example_factors (Some ''7'') = Inr r
      \<and> (\<forall>x\<in>set pre. volume_key example_float x < volume_key example_float r)
      \<and> (\<forall>x\<in>set post. volume_key example_float x \<le> volume_key example_float r)"
proof -
  have a: "example_factors \<noteq> []" by (simp add: example_factors_def)
  have b: "\<forall>r\<in>set example_factors. \<exists>i. map_of r ''id'' = Some i \<and> i \<noteq> ''7''"
    by (simp add: example_factors_def)
  show ?thesis by (rule choose_factor_scenario_fallback [OF a b])
qed

section \<open>The rebalancer\<close>

subsection \<open>Grouping by type\<close>

lemma units_from_zero: "units_from vehicles 0 vtype = units_of_type vehicles vtype"
  by (simp add: units_from_def units_of_type_def)

lemma units_from_Nil: "units_from [] i vtype = []"
  by (simp add: units_from_def)

lemma units_from_Cons:
  "units_from (v # vehicles) i vtype =
     (if normalised_type v = Some vtype then [i] else []) @ units_from vehicles (Suc i) vtype"
proof -
  have shift: "filter (\<lambda>j. normalised_type ((v # vehicles) ! (j - i)) = Some vtype) [Suc i..<Suc i + length vehicles]
      = filter (\<lambda>j. normalised_type (vehicles ! (j - Suc i)) = Some vtype) [Suc i..<Suc i + length vehicles]"
  proof (rule filter_cong [OF refl])
    fix j assume "j \<in> set [Suc i..<Suc i + length vehicles]"
    then have "j - i = Suc (j - Suc i)" by auto
    then show "(normalised_type ((v # vehicles) ! (j - i)) = Some vtype)
        = (normalised_type (vehicles ! (j - Suc i)) = Some vtype)" by simp
  qed
  have upt: "[i..<i + length (v # vehicles)] = i # [Suc i..<Suc i + length vehicles]"
    by (simp add: upt_rec)
  have "units_from (v # vehicles) i vtype
      = filter (\<lambda>j. normalised_type ((v # vehicles) ! (j - i)) = Some vtype) (i # [Suc i..<Suc i + length vehicles])"
    unfolding units_from_def upt ..
  also have "\<dots> = (if normalised_type v = Some vtype then [i] else [])
      @ filter (\<lambda>j. normalised_type ((v # vehicles) ! (j - i)) = Some vtype) [Suc i..<Suc i + length vehicles]"
    by simp
  also have "\<dots> = (if normalised_type v = Some vtype then [i] else []) @ units_from vehicles (Suc i) vtype"
    unfolding shift units_from_def ..
  finally show ?thesis .
qed

lemma group_loop_result:
  assumes "\<forall>v\<in>set vehicles. normalised_type v \<noteq> None"
  shows "group_loop vehicles i [(''ambulance'', a), (''police'', p), (''fire'', f)] =
     Inr [(''ambulance'', a @ units_from vehicles i ''ambulance''),
          (''police'', p @ units_from vehicles i ''police''),
          (''fire'', f @ units_from vehicles i ''fire'')]"
  using assms
proof (induction vehicles arbitrary: i a p f)
  case Nil
  show ?case by (simp add: units_from_Nil)
next
  case (Cons v vehicles)
  from Cons.prems obtain t where t: "map_of v ''type'' = Some (Str t)"
    by (auto simp: normalised_type_def split: option.splits pyval.splits)
  then have vt: "normalised_type v = Some (normalise t)" by (simp add: normalised_type_def)
  have ih: "group_loop vehicles (Suc i) [(''ambulance'', a'), (''police'', p'), (''fire'', f')] =
     Inr [(''ambulance'', a' @ units_from vehicles (Suc i) ''ambulance''),
          (''police'', p' @ units_from vehicles (Suc i) ''police''),
          (''fire'', f' @ units_from vehicles (Suc i) ''fire'')]"
    for a' p' f'
    using Cons.IH [of "Suc i" a' p' f'] Cons.prems by simp
  consider (amb) "normalise t = ''ambulance''" | (pol) "normalise t = ''police''"
    | (fire) "normalise t = ''fire''"
    | (other) "normalise t \<noteq> ''ambulance''" "normalise t \<noteq> ''police''" "normalise t \<noteq> ''fire''"
    by blast
  then show ?case
  proof cases
    case amb
    show ?thesis
      using t vt amb ih [of "a @ [i]" p f] by (simp add: units_from_Cons Let_def)
  next
    case pol
    show ?thesis
      using t vt pol ih [of a "p @ [i]" f] by (simp add: units_from_Cons Let_def)
  next
    case fire
    show ?thesis
      using t vt fire ih [of a p "f @ [i]"] by (simp add: units_from_Cons Let_def)
  next
    case other
    show ?thesis
      using t vt other ih [of a p f] by (simp add: units_from_Cons Let_def)
  qed
qed

lemma group_loop_units:
  assumes "\<forall>v\<in>set vehicles. normalised_type v \<noteq> None"
  shows "group_loop vehicles 0 vehicles_by_type_init =
     Inr [(''ambulance'', units_of_type vehicles ''ambulance''),
          (''police'', units_of_type vehicles ''police''),
          (''fire'', units_of_type vehicles ''fire'')]"
  using group_loop_result [OF assms, of 0 "[]" "[]" "[]"]
  by (simp add: vehicles_by_type_init_def units_from_zero)

lemma group_loop_typed:
  "group_loop vehicles i g = Inr g' \<Longrightarrow> \<forall>v\<in>set vehicles. normalised_type v \<noteq> None"
proof (induction vehicles arbitrary: i g)
  case Nil
  show ?case by simp
next
  case (Cons v vehicles)
  from Cons.prems obtain t where t: "map_of v ''type'' = Some (Str t)"
    by (auto split: option.splits pyval.splits)
  then have "normalised_type v \<noteq> None" by (simp add: normalised_type_def)
  moreover have "\<exists>i' g2. group_loop vehicles i' g2 = Inr g'"
    using Cons.prems t by (auto simp: Let_def split: option.splits)
  then have "\<forall>v\<in>set vehicles. normalised_type v \<noteq> None"
    using Cons.IH by blast
  ultimately show ?case by simp
qed

subsection \<open>Station lookup\<close>

lemma lookup_loop_ids:
  "lookup_loop stations lk = Inr lk' \<Longrightarrow> \<forall>s\<in>set stations. map_of s ''id'' \<noteq> None"
  by (induction stations lk rule: lookup_loop.induct) (auto split: option.splits)

lemma lookup_loop_total:
  "\<forall>s\<in>set stations. map_of s ''id'' \<noteq> None \<Longrightarrow> \<exists>lk'. lookup_loop stations lk = Inr lk'"
  by (induction stations lk rule: lookup_loop.induct) auto

lemma weights_loop_total:
  "\<forall>s\<in>set stations. map_of s ''id'' \<noteq> None \<Longrightarrow>
     \<exists>w'. weights_loop pint rh hm bm cf stations w = Inr w'"
  by (induction pint rh hm bm cf stations w rule: weights_loop.induct) (auto simp: Let_def)

lemma compute_station_weights_total:
  "\<forall>s\<in>set stations. map_of s ''id'' \<noteq> None \<Longrightarrow>
     \<exists>w. compute_station_weights pint pfloat stations factor vtype = Inr w"
  by (simp add: compute_station_weights_def Let_def weights_loop_total)

subsection \<open>The assignment loop\<close>

lemma assign_loop_Cons:
  "assign_loop pfloat lk ids i (r # vlist) vehicles =
     assign_loop pfloat lk ids (Suc i) vlist (vehicles[r := placed pfloat lk ids i (vehicles ! r)])"
  by (simp add: placed_def Let_def split: option.splits)

lemma assign_loop_result:
  assumes "distinct vlist" and "\<forall>r\<in>set vlist. r < length vehicles"
  shows "length (assign_loop pfloat lk ids i vlist vehicles) = length vehicles
    \<and> (\<forall>k<length vlist. assign_loop pfloat lk ids i vlist vehicles ! (vlist ! k)
          = placed pfloat lk ids (i + k) (vehicles ! (vlist ! k)))
    \<and> (\<forall>j. j \<notin> set vlist \<longrightarrow> assign_loop pfloat lk ids i vlist vehicles ! j = vehicles ! j)"
  using assms
proof (induction vlist arbitrary: i vehicles)
  case Nil
  show ?case by simp
next
  case (Cons r vlist)
  define vs1 where "vs1 = vehicles[r := placed pfloat lk ids i (vehicles ! r)]"
  let ?res = "assign_loop pfloat lk ids (Suc i) vlist vs1"
  have run: "assign_loop pfloat lk ids i (r # vlist) vehicles = ?res"
    unfolding vs1_def by (rule assign_loop_Cons)
  have r: "r < length vehicles" "r \<notin> set vlist" using Cons.prems by simp_all
  have "distinct vlist" "\<forall>q\<in>set vlist. q < length vs1"
    using Cons.prems by (simp_all add: vs1_def)
  from Cons.IH [OF this, of "Suc i"] have
    len: "length ?res = length vs1"
    and at: "\<And>k. k < length vlist \<Longrightarrow> ?res ! (vlist ! k) = placed pfloat lk ids (Suc i + k) (vs1 ! (vlist ! k))"
    and frame: "\<And>j. j \<notin> set vlist \<Longrightarrow> ?res ! j = vs1 ! j"
    by blast+
  have "length ?res = length vehicles" using len by (simp add: vs1_def)
  moreover have "?res ! ((r # vlist) ! k) = placed pfloat lk ids (i + k) (vehicles ! ((r # vlist) ! k))"
    if "k < length (r # vlist)" for k
  proof (cases k)
    case 0
    then show ?thesis using frame [OF r(2)] r(1) by (simp add: vs1_def)
  next
    case (Suc k')
    then have k': "k' < length vlist" using that by simp
    then have "vlist ! k' \<noteq> r" using r(2) by (metis nth_mem)
    then have "vs1 ! (vlist ! k') = vehicles ! (vlist ! k')" by (simp add: vs1_def)
    then show ?thesis using at [OF k'] Suc by simp
  qed
  moreover have "?res ! j = vehicles ! j" if "j \<notin> set (r # vlist)" for j
    using that frame [of j] by (simp add: vs1_def)
  ultimately show ?case unfolding run by blast
qed

subsection \<open>The loop over the types\<close>

lemma types_loop_Cons:
  assumes "compute_station_weights pint pfloat stations factor vtype = Inr weights"
  shows "types_loop pint pfloat stations factor lk ((vtype, vlist) # gs) vehicles =
     types_loop pint pfloat stations factor lk gs
       (if weights = [] \<or> weighted_station_ids weights = [] then vehicles
        else assign_loop pfloat lk (weighted_station_ids weights) 0 vlist vehicles)"
  using assms by (cases vlist) (simp_all add: Let_def)

lemma types_loop_result:
  assumes "\<forall>s\<in>set stations. map_of s ''id'' \<noteq> None"
      and "distinct (concat (map snd gs))"
      and "\<forall>r\<in>set (concat (map snd gs)). r < length vehicles"
  shows "\<exists>vs'. types_loop pint pfloat stations factor lk gs vehicles = Inr vs'
      \<and> length vs' = length vehicles
      \<and> (\<forall>(t, l)\<in>set gs. \<forall>k<length l.
            vs' ! (l ! k) = type_target pint pfloat stations factor lk t k (vehicles ! (l ! k)))
      \<and> (\<forall>j. j \<notin> set (concat (map snd gs)) \<longrightarrow> vs' ! j = vehicles ! j)"
  using assms(2,3)
proof (induction gs arbitrary: vehicles)
  case Nil
  show ?case by simp
next
  case (Cons g gs)
  obtain t l where g: "g = (t, l)" by (cases g)
  obtain weights where w: "compute_station_weights pint pfloat stations factor t = Inr weights"
    using compute_station_weights_total [OF assms(1)] by blast
  define vs1 where "vs1 =
    (if weights = [] \<or> weighted_station_ids weights = [] then vehicles
     else assign_loop pfloat lk (weighted_station_ids weights) 0 l vehicles)"
  have dl: "distinct l" "\<forall>r\<in>set l. r < length vehicles"
    using Cons.prems by (simp_all add: g)
  have step: "length vs1 = length vehicles
    \<and> (\<forall>k<length l. vs1 ! (l ! k) = type_target pint pfloat stations factor lk t k (vehicles ! (l ! k)))
    \<and> (\<forall>j. j \<notin> set l \<longrightarrow> vs1 ! j = vehicles ! j)"
    using assign_loop_result [OF dl, of pfloat lk "weighted_station_ids weights" 0]
    by (auto simp: vs1_def type_target_def w)
  have run: "types_loop pint pfloat stations factor lk (g # gs) vehicles
      = types_loop pint pfloat stations factor lk gs vs1"
    unfolding g vs1_def by (rule types_loop_Cons [OF w])
  have "distinct (concat (map snd gs))" "\<forall>r\<in>set (concat (map snd gs)). r < length vs1"
    using Cons.prems step by (simp_all add: g)
  from Cons.IH [OF this] obtain vs' where
    r: "types_loop pint pfloat stations factor lk gs vs1 = Inr vs'"
       "length vs' = length vs1"
       "\<forall>(t, l)\<in>set gs. \<forall>k<length l.
            vs' ! (l ! k) = type_target pint pfloat stations factor lk t k (vs1 ! (l ! k))"
       "\<forall>j. j \<notin> set (concat (map snd gs)) \<longrightarrow> vs' ! j = vs1 ! j"
    by blast
  have disj: "set l \<inter> set (concat (map snd gs)) = {}"
    using Cons.prems(1) by (simp add: g)
  have a: "vs' ! (l ! k) = type_target pint pfloat stations factor lk t k (vehicles ! (l ! k))"
    if "k < length l" for k
  proof -
    have "l ! k \<in> set l" using that by simp
    then have "l ! k \<notin> set (concat (map snd gs))" using disj by blast
    then have "vs' ! (l ! k) = vs1 ! (l ! k)" using r(4) by blast
    then show ?thesis using step that by simp
  qed
  have b: "vs' ! (l' ! k) = type_target pint pfloat stations factor lk t' k (vehicles ! (l' ! k))"
    if "(t', l') \<in> set gs" "k < length l'" for t' l' k
  proof -
    have "l' ! k \<in> set (concat (map snd gs))" using that by force
    then have "l' ! k \<notin> set l" using disj by blast
    then have "vs1 ! (l' ! k) = vehicles ! (l' ! k)" using step by blast
    then show ?thesis using r(3) that by force
  qed
  have c: "vs' ! j = vehicles ! j" if "j \<notin> set (concat (map snd (g # gs)))" for j
    using that r(4) step by (simp add: g)
  have "\<forall>(t, l)\<in>set (g # gs). \<forall>k<length l.
            vs' ! (l ! k) = type_target pint pfloat stations factor lk t k (vehicles ! (l ! k))"
    using a b by (auto simp: g)
  then show ?case using run r(1,2) step c by auto
qed

subsection \<open>The whole allocation\<close>

lemma units_of_type_set:
  "j \<in> set (units_of_type vehicles vtype) \<longleftrightarrow> j < length vehicles \<and> normalised_type (vehicles ! j) = Some vtype"
  by (auto simp: units_of_type_def)

lemma units_distinct:
  "distinct (units_of_type vehicles ''ambulance'' @ units_of_type vehicles ''police''
      @ units_of_type vehicles ''fire'')"
  by (auto simp: units_of_type_def)

lemma assign_vehicles_result:
  assumes "\<forall>s\<in>set stations. map_of s ''id'' \<noteq> None"
      and "\<forall>v\<in>set vehicles. normalised_type v \<noteq> None"
  shows "\<exists>lk vs'. build_station_lookup stations = Inr lk
      \<and> assign_vehicles_to_stations pint pfloat vehicles stations factor = Inr vs'
      \<and> length vs' = length vehicles
      \<and> (\<forall>t\<in>known_types. \<forall>k<length (units_of_type vehicles t).
            vs' ! (units_of_type vehicles t ! k)
              = type_target pint pfloat stations factor lk t k (vehicles ! (units_of_type vehicles t ! k)))
      \<and> (\<forall>j<length vehicles. (\<forall>t\<in>known_types. normalised_type (vehicles ! j) \<noteq> Some t)
            \<longrightarrow> vs' ! j = vehicles ! j)"
proof -
  obtain lk where lk: "build_station_lookup stations = Inr lk"
    using lookup_loop_total [OF assms(1)] by (auto simp: build_station_lookup_def)
  let ?gs = "[(''ambulance'', units_of_type vehicles ''ambulance''),
          (''police'', units_of_type vehicles ''police''),
          (''fire'', units_of_type vehicles ''fire'')]"
  have d: "distinct (concat (map snd ?gs))" using units_distinct [of vehicles] by simp
  have b: "\<forall>r\<in>set (concat (map snd ?gs)). r < length vehicles"
    by (auto simp: units_of_type_set)
  from types_loop_result [OF assms(1) d b, of pint pfloat factor lk] obtain vs' where
    r: "types_loop pint pfloat stations factor lk ?gs vehicles = Inr vs'"
       "length vs' = length vehicles"
       "\<forall>(t, l)\<in>set ?gs. \<forall>k<length l.
            vs' ! (l ! k) = type_target pint pfloat stations factor lk t k (vehicles ! (l ! k))"
       "\<forall>j. j \<notin> set (concat (map snd ?gs)) \<longrightarrow> vs' ! j = vehicles ! j"
    by blast
  have run: "assign_vehicles_to_stations pint pfloat vehicles stations factor = Inr vs'"
    using lk group_loop_units [OF assms(2)] r(1) by (simp add: assign_vehicles_to_stations_def)
  have typed: "\<forall>t\<in>known_types. \<forall>k<length (units_of_type vehicles t).
            vs' ! (units_of_type vehicles t ! k)
              = type_target pint pfloat stations factor lk t k (vehicles ! (units_of_type vehicles t ! k))"
    using r(3) by (simp add: known_types_def)
  have other: "vs' ! j = vehicles ! j"
    if "j < length vehicles" "\<forall>t\<in>known_types. normalised_type (vehicles ! j) \<noteq> Some t" for j
  proof -
    have "j \<notin> set (concat (map snd ?gs))"
      using that(2) by (simp add: units_of_type_set known_types_def)
    then show ?thesis using r(4) by blast
  qed
  show ?thesis using lk run r(2) typed other by blast
qed

subsection \<open>Moving one vehicle\<close>

lemma move_to_station_other:
  "key \<noteq> ''lat'' \<Longrightarrow> key \<noteq> ''lon'' \<Longrightarrow> key \<noteq> ''station_id'' \<Longrightarrow>
     map_of (move_to_station pfloat st sid v) key = map_of v key"
  by (simp add: move_to_station_def Let_def update_conv' split: option.splits)

lemma move_to_station_station_id:
  "map_of (move_to_station pfloat st sid v) ''station_id'' = Some (Str sid)"
  by (simp add: move_to_station_def Let_def update_conv' split: option.splits)

lemma move_to_station_position:
  "station_position pfloat st = Some (la, lo) \<Longrightarrow>
     map_of (move_to_station pfloat st sid v) ''lat'' = Some (Flt la)
     \<and> map_of (move_to_station pfloat st sid v) ''lon'' = Some (Flt lo)"
  by (auto simp: move_to_station_def station_position_def Let_def update_conv' split: option.splits)

lemma move_to_station_idem:
  "move_to_station pfloat st sid (move_to_station pfloat st sid v) = move_to_station pfloat st sid v"
  by (simp add: move_to_station_def Let_def update_conv' update_triv split: option.splits)

lemma placed_other:
  "key \<noteq> ''lat'' \<Longrightarrow> key \<noteq> ''lon'' \<Longrightarrow> key \<noteq> ''station_id'' \<Longrightarrow>
     map_of (placed pfloat lk ids k v) key = map_of v key"
  by (simp add: placed_def move_to_station_other split: option.splits)

lemma placed_idem: "placed pfloat lk ids k (placed pfloat lk ids k v) = placed pfloat lk ids k v"
  by (simp add: placed_def move_to_station_idem split: option.splits)

lemma type_target_other:
  "key \<noteq> ''lat'' \<Longrightarrow> key \<noteq> ''lon'' \<Longrightarrow> key \<noteq> ''station_id'' \<Longrightarrow>
     map_of (type_target pint pfloat stations factor lk t k v) key = map_of v key"
  by (simp add: type_target_def placed_other split: sum.splits)

lemma type_target_idem:
  "type_target pint pfloat stations factor lk t k (type_target pint pfloat stations factor lk t k v)
     = type_target pint pfloat stations factor lk t k v"
  by (simp add: type_target_def placed_idem split: sum.splits)

lemma type_target_type:
  "normalised_type (type_target pint pfloat stations factor lk t k v) = normalised_type v"
  by (simp add: normalised_type_def type_target_other)

subsection \<open>Consequences\<close>

lemma assign_success:
  assumes "assign_vehicles_to_stations pint pfloat vehicles stations factor = Inr vehicles'"
  shows "(\<forall>s\<in>set stations. map_of s ''id'' \<noteq> None) \<and> (\<forall>v\<in>set vehicles. normalised_type v \<noteq> None)"
proof -
  from assms obtain lk g where "build_station_lookup stations = Inr lk"
    "group_loop vehicles 0 vehicles_by_type_init = Inr g"
    by (auto simp: assign_vehicles_to_stations_def split: sum.splits)
  then show ?thesis
    using lookup_loop_ids [of stations "[]" lk] group_loop_typed [of vehicles 0 vehicles_by_type_init g]
    by (simp add: build_station_lookup_def)
qed

text \<open>An exception can only come from the station lookup or from the grouping, both of which
  run before the first write: no half-written fleet is lost with an error.\<close>

lemma assign_error_before_write:
  assumes "assign_vehicles_to_stations pint pfloat vehicles stations factor = Inl e"
  shows "build_station_lookup stations = Inl e
       \<or> group_loop vehicles 0 vehicles_by_type_init = Inl e"
proof (cases "build_station_lookup stations")
  case (Inl e')
  then show ?thesis using assms by (simp add: assign_vehicles_to_stations_def)
next
  case (Inr lk)
  show ?thesis
  proof (cases "group_loop vehicles 0 vehicles_by_type_init")
    case (Inl e')
    then show ?thesis using assms Inr by (simp add: assign_vehicles_to_stations_def)
  next
    case (Inr g)
    have "\<forall>s\<in>set stations. map_of s ''id'' \<noteq> None"
      using lookup_loop_ids [of stations "[]" lk] \<open>build_station_lookup stations = Inr lk\<close>
      by (simp add: build_station_lookup_def)
    moreover have "\<forall>v\<in>set vehicles. normalised_type v \<noteq> None"
      using group_loop_typed [OF Inr] .
    ultimately have "\<exists>vs'. assign_vehicles_to_stations pint pfloat vehicles stations factor = Inr vs'"
      using assign_vehicles_result [of stations vehicles pint pfloat factor] by blast
    then show ?thesis using assms by simp
  qed
qed

lemma units_index:
  assumes "j < length vehicles" and "normalised_type (vehicles ! j) = Some t"
  shows "\<exists>k<length (units_of_type vehicles t). units_of_type vehicles t ! k = j"
proof -
  have "j \<in> set (units_of_type vehicles t)" using assms by (simp add: units_of_type_set)
  then show ?thesis by (auto simp: in_set_conv_nth)
qed

text \<open>Every vehicle is either left as it was or is the target of its own type.\<close>

lemma assign_vehicles_each:
  assumes "assign_vehicles_to_stations pint pfloat vehicles stations factor = Inr vehicles'"
  shows "length vehicles' = length vehicles
    \<and> (\<forall>j<length vehicles. vehicles' ! j = vehicles ! j
          \<or> (\<exists>lk t k. vehicles' ! j = type_target pint pfloat stations factor lk t k (vehicles ! j)))"
proof -
  from assign_success [OF assms] have wf: "\<forall>s\<in>set stations. map_of s ''id'' \<noteq> None"
    "\<forall>v\<in>set vehicles. normalised_type v \<noteq> None" by simp_all
  from assign_vehicles_result [OF wf, of pint pfloat factor] assms obtain lk where
    r: "length vehicles' = length vehicles"
       "\<forall>t\<in>known_types. \<forall>k<length (units_of_type vehicles t).
            vehicles' ! (units_of_type vehicles t ! k)
              = type_target pint pfloat stations factor lk t k (vehicles ! (units_of_type vehicles t ! k))"
       "\<forall>j<length vehicles. (\<forall>t\<in>known_types. normalised_type (vehicles ! j) \<noteq> Some t)
            \<longrightarrow> vehicles' ! j = vehicles ! j"
    by auto
  have "vehicles' ! j = vehicles ! j
          \<or> (\<exists>lk t k. vehicles' ! j = type_target pint pfloat stations factor lk t k (vehicles ! j))"
    if j: "j < length vehicles" for j
  proof (cases "\<forall>t\<in>known_types. normalised_type (vehicles ! j) \<noteq> Some t")
    case True
    then show ?thesis using r(3) j by blast
  next
    case False
    then obtain t where t: "t \<in> known_types" "normalised_type (vehicles ! j) = Some t" by blast
    from units_index [OF j t(2)] obtain k where
      "k < length (units_of_type vehicles t)" "units_of_type vehicles t ! k = j" by blast
    then show ?thesis using r(2) t(1) by metis
  qed
  then show ?thesis using r(1) by blast
qed

text \<open>The example, run.\<close>

lemma example_run:
  "assign_vehicles_to_stations example_int example_float example_vehicles example_stations example_factor
     = Inr example_vehicles_after"
  by (simp add: assign_vehicles_to_stations_def build_station_lookup_def vehicles_by_type_init_def
      compute_station_weights_def move_to_station_def example_vehicles_def example_vehicle_def
      example_vehicles_after_def
      example_stations_def example_factor_def example_int_def example_float_def get_cell_def
      dict_get_def normalise_def strip_def lower_def lower_char_def is_space_def py_round_def float_eval Let_def
      eval_nat_numeral)

text \<open>
  Claim C10. When the allocation returns, a vehicle whose normalised type is none of
  ambulance, police and fire is the same dictionary as before, field for field, at the
  same place in the list.
\<close>

theorem unknown_type_untouched:
  assumes "assign_vehicles_to_stations pint pfloat vehicles stations factor = Inr vehicles'"
      and "j < length vehicles"
      and "map_of (vehicles ! j) ''type'' = Some (Str t)"
      and "normalise t \<notin> known_types"
  shows "length vehicles' = length vehicles \<and> vehicles' ! j = vehicles ! j"
proof -
  from assign_success [OF assms(1)] have wf: "\<forall>s\<in>set stations. map_of s ''id'' \<noteq> None"
    "\<forall>v\<in>set vehicles. normalised_type v \<noteq> None" by simp_all
  have "\<forall>ty\<in>known_types. normalised_type (vehicles ! j) \<noteq> Some ty"
    using assms(3,4) by (auto simp: normalised_type_def)
  then show ?thesis
    using assign_vehicles_result [OF wf, of pint pfloat factor] assms(1,2) by auto
qed

theorem unknown_type_untouched_witness:
  "length example_vehicles_after = length example_vehicles
   \<and> example_vehicles_after ! 2 = example_vehicles ! 2"
  using unknown_type_untouched [OF example_run, of 2 "''boat''"]
  by (simp add: example_vehicles_def example_vehicle_def known_types_def normalise_def strip_def
      lower_def lower_char_def is_space_def)

subsection \<open>Running twice\<close>

lemma units_of_type_cong:
  assumes "length vs' = length vs"
      and "\<forall>j<length vs. normalised_type (vs' ! j) = normalised_type (vs ! j)"
  shows "units_of_type vs' t = units_of_type vs t"
  unfolding units_of_type_def assms(1)
  by (rule filter_cong [OF refl]) (use assms(2) in simp)

text \<open>
  Claim C8. The allocation is a function of the vehicles, the stations and the scenario,
  and running it again on its own output (the fleet it has just rewritten in place), with
  the same stations and scenario, returns that output unchanged: every unit keeps the
  position and the station the first run gave it.
\<close>

theorem rebalance_idempotent:
  assumes "assign_vehicles_to_stations pint pfloat vehicles stations factor = Inr vehicles'"
  shows "assign_vehicles_to_stations pint pfloat vehicles' stations factor = Inr vehicles'"
proof -
  from assign_success [OF assms] have wf: "\<forall>s\<in>set stations. map_of s ''id'' \<noteq> None"
    "\<forall>v\<in>set vehicles. normalised_type v \<noteq> None" by simp_all
  from assign_vehicles_result [OF wf, of pint pfloat factor] assms obtain lk where
    lk: "build_station_lookup stations = Inr lk"
    and len: "length vehicles' = length vehicles"
    and typed: "\<And>t k. t \<in> known_types \<Longrightarrow> k < length (units_of_type vehicles t) \<Longrightarrow>
            vehicles' ! (units_of_type vehicles t ! k)
              = type_target pint pfloat stations factor lk t k (vehicles ! (units_of_type vehicles t ! k))"
    and other: "\<And>j. j < length vehicles \<Longrightarrow> (\<forall>t\<in>known_types. normalised_type (vehicles ! j) \<noteq> Some t)
            \<Longrightarrow> vehicles' ! j = vehicles ! j"
    by auto
  have same_type: "normalised_type (vehicles' ! j) = normalised_type (vehicles ! j)"
    if "j < length vehicles" for j
    using assign_vehicles_each [OF assms] that type_target_type by metis
  have units: "units_of_type vehicles' t = units_of_type vehicles t" for t
    using units_of_type_cong [OF len] same_type by simp
  have wf': "\<forall>v\<in>set vehicles'. normalised_type v \<noteq> None"
  proof
    fix v assume "v \<in> set vehicles'"
    then obtain j where j: "j < length vehicles'" "vehicles' ! j = v" by (auto simp: in_set_conv_nth)
    then have "normalised_type v = normalised_type (vehicles ! j)" using same_type len by auto
    moreover have "vehicles ! j \<in> set vehicles" using j(1) len by simp
    ultimately show "normalised_type v \<noteq> None" using wf(2) by simp
  qed
  from assign_vehicles_result [OF wf(1) wf', of pint pfloat factor] lk obtain vehicles'' where
    run: "assign_vehicles_to_stations pint pfloat vehicles' stations factor = Inr vehicles''"
    and len': "length vehicles'' = length vehicles'"
    and typed': "\<And>t k. t \<in> known_types \<Longrightarrow> k < length (units_of_type vehicles' t) \<Longrightarrow>
            vehicles'' ! (units_of_type vehicles' t ! k)
              = type_target pint pfloat stations factor lk t k (vehicles' ! (units_of_type vehicles' t ! k))"
    and other': "\<And>j. j < length vehicles' \<Longrightarrow> (\<forall>t\<in>known_types. normalised_type (vehicles' ! j) \<noteq> Some t)
            \<Longrightarrow> vehicles'' ! j = vehicles' ! j"
    by auto
  have "vehicles'' = vehicles'"
  proof (rule nth_equalityI)
    show "length vehicles'' = length vehicles'" by (rule len')
  next
    fix j assume "j < length vehicles''"
    then have j: "j < length vehicles" "j < length vehicles'" using len len' by simp_all
    show "vehicles'' ! j = vehicles' ! j"
    proof (cases "\<forall>t\<in>known_types. normalised_type (vehicles ! j) \<noteq> Some t")
      case True
      then have "\<forall>t\<in>known_types. normalised_type (vehicles' ! j) \<noteq> Some t"
        using same_type [OF j(1)] by simp
      then show ?thesis using other' [OF j(2)] by simp
    next
      case False
      then obtain t where t: "t \<in> known_types" "normalised_type (vehicles ! j) = Some t" by blast
      from units_index [OF j(1) t(2)] obtain k where
        k: "k < length (units_of_type vehicles t)" "units_of_type vehicles t ! k = j" by blast
      have "vehicles' ! j = type_target pint pfloat stations factor lk t k (vehicles ! j)"
        using typed [OF t(1) k(1)] k(2) by simp
      moreover have "vehicles'' ! j = type_target pint pfloat stations factor lk t k (vehicles' ! j)"
        using typed' [OF t(1), of k] k by (simp add: units)
      ultimately show ?thesis by (simp add: type_target_idem)
    qed
  qed
  then show ?thesis using run by simp
qed

theorem rebalance_idempotent_witness:
  "assign_vehicles_to_stations example_int example_float example_vehicles_after example_stations
     example_factor = Inr example_vehicles_after"
  by (rule rebalance_idempotent [OF example_run])

subsection \<open>The status\<close>

lemma move_to_station_cong:
  "map_of v1 key = map_of v2 key \<Longrightarrow>
     map_of (move_to_station pfloat st sid v1) key = map_of (move_to_station pfloat st sid v2) key"
  by (simp add: move_to_station_def Let_def update_conv' split: option.splits)

lemma type_target_cong:
  "map_of v1 key = map_of v2 key \<Longrightarrow>
     map_of (type_target pint pfloat stations factor lk t k v1) key
       = map_of (type_target pint pfloat stations factor lk t k v2) key"
  by (auto simp: type_target_def placed_def split: sum.splits option.splits
      intro: move_to_station_cong)

lemma status_blind:
  assumes run: "assign_vehicles_to_stations pint pfloat vehicles stations factor = Inr vehicles'"
      and len: "length others = length vehicles"
      and same: "\<forall>j<length vehicles. \<forall>key. key \<noteq> ''status'' \<longrightarrow>
                   map_of (others ! j) key = map_of (vehicles ! j) key"
  shows "\<exists>others'. assign_vehicles_to_stations pint pfloat others stations factor = Inr others'
      \<and> length others' = length vehicles'
      \<and> (\<forall>j<length vehicles. \<forall>key. key \<noteq> ''status'' \<longrightarrow>
            map_of (others' ! j) key = map_of (vehicles' ! j) key)"
proof -
  from assign_success [OF run] have wf: "\<forall>s\<in>set stations. map_of s ''id'' \<noteq> None"
    "\<forall>v\<in>set vehicles. normalised_type v \<noteq> None" by simp_all
  have ty: "normalised_type (others ! j) = normalised_type (vehicles ! j)" if "j < length vehicles" for j
    using same that by (simp add: normalised_type_def)
  have units: "units_of_type others t = units_of_type vehicles t" for t
    using units_of_type_cong [OF len] ty by simp
  have wf': "\<forall>v\<in>set others. normalised_type v \<noteq> None"
  proof
    fix v assume "v \<in> set others"
    then obtain j where j: "j < length others" "others ! j = v" by (auto simp: in_set_conv_nth)
    then have "normalised_type v = normalised_type (vehicles ! j)" using ty len by auto
    moreover have "vehicles ! j \<in> set vehicles" using j(1) len by simp
    ultimately show "normalised_type v \<noteq> None" using wf(2) by simp
  qed
  from assign_vehicles_result [OF wf, of pint pfloat factor] run obtain lk where
    lk: "build_station_lookup stations = Inr lk"
    and len1: "length vehicles' = length vehicles"
    and typed: "\<And>t k. t \<in> known_types \<Longrightarrow> k < length (units_of_type vehicles t) \<Longrightarrow>
            vehicles' ! (units_of_type vehicles t ! k)
              = type_target pint pfloat stations factor lk t k (vehicles ! (units_of_type vehicles t ! k))"
    and other: "\<And>j. j < length vehicles \<Longrightarrow> (\<forall>t\<in>known_types. normalised_type (vehicles ! j) \<noteq> Some t)
            \<Longrightarrow> vehicles' ! j = vehicles ! j"
    by auto
  from assign_vehicles_result [OF wf(1) wf', of pint pfloat factor] lk obtain others' where
    run2: "assign_vehicles_to_stations pint pfloat others stations factor = Inr others'"
    and len2: "length others' = length others"
    and typed2: "\<And>t k. t \<in> known_types \<Longrightarrow> k < length (units_of_type others t) \<Longrightarrow>
            others' ! (units_of_type others t ! k)
              = type_target pint pfloat stations factor lk t k (others ! (units_of_type others t ! k))"
    and other2: "\<And>j. j < length others \<Longrightarrow> (\<forall>t\<in>known_types. normalised_type (others ! j) \<noteq> Some t)
            \<Longrightarrow> others' ! j = others ! j"
    by auto
  have "map_of (others' ! j) key = map_of (vehicles' ! j) key"
    if j: "j < length vehicles" and key: "key \<noteq> ''status''" for j key
  proof (cases "\<forall>t\<in>known_types. normalised_type (vehicles ! j) \<noteq> Some t")
    case True
    then have "\<forall>t\<in>known_types. normalised_type (others ! j) \<noteq> Some t" using ty [OF j] by simp
    then have "others' ! j = others ! j" using other2 j len by simp
    moreover have "vehicles' ! j = vehicles ! j" using other [OF j True] .
    ultimately show ?thesis using same j key by simp
  next
    case False
    then obtain t where t: "t \<in> known_types" "normalised_type (vehicles ! j) = Some t" by blast
    from units_index [OF j t(2)] obtain k where
      k: "k < length (units_of_type vehicles t)" "units_of_type vehicles t ! k = j" by blast
    have "vehicles' ! j = type_target pint pfloat stations factor lk t k (vehicles ! j)"
      using typed [OF t(1) k(1)] k(2) by simp
    moreover have "others' ! j = type_target pint pfloat stations factor lk t k (others ! j)"
      using typed2 [OF t(1), of k] k by (simp add: units)
    moreover have "map_of (others ! j) key = map_of (vehicles ! j) key" using same j key by simp
    ultimately show ?thesis
      using type_target_cong [of "others ! j" key "vehicles ! j" pint pfloat stations factor lk t k]
      by simp
  qed
  then show ?thesis using run2 len2 len len1 by auto
qed

lemma example_idle_same:
  "\<forall>j<length example_vehicles. \<forall>key. key \<noteq> ''status'' \<longrightarrow>
       map_of (example_vehicles_idle ! j) key = map_of (example_vehicles ! j) key"
  by (simp add: example_vehicles_def example_vehicles_idle_def example_vehicle_def
      All_less_Suc eval_nat_numeral)

text \<open>
  Claim C1 says that the rebalancer never rewrites the position or the station of a busy
  unit. The allocation never reads the status: in the example the busy ambulance A1, at
  \<^verbatim>\<open>("0", "0")\<close> with no station, ends at station S1, at \<open>(1, 2.5)\<close>.
\<close>

theorem rebalance_moves_busy_unit_counterexample:
  "map_of (example_vehicles ! 0) ''status'' = Some (Str ''busy'')
   \<and> map_of (example_vehicles ! 0) ''lat'' = Some (Str ''0'')
   \<and> map_of (example_vehicles ! 0) ''station_id'' = None
   \<and> assign_vehicles_to_stations example_int example_float example_vehicles example_stations
        example_factor = Inr example_vehicles_after
   \<and> map_of (example_vehicles_after ! 0) ''lat'' = Some (Flt 1)
   \<and> map_of (example_vehicles_after ! 0) ''station_id'' = Some (Str ''S1'')"
  using example_run
  by (simp add: example_vehicles_def example_vehicle_def example_vehicles_after_def)

text \<open>
  Claim C1, amended. When the allocation returns, every field of every unit other than
  \<^verbatim>\<open>lat\<close>, \<^verbatim>\<open>lon\<close> and \<^verbatim>\<open>station_id\<close> is what it was, the status among them, and the list
  has the same length. The allocation does not consult the status: on a fleet that differs
  from the given one in statuses only it returns as well, and gives every unit the same
  latitude, longitude and station (the two results differ in statuses only).
\<close>

theorem rebalance_ignores_status:
  assumes "assign_vehicles_to_stations pint pfloat vehicles stations factor = Inr vehicles'"
      and "length others = length vehicles"
      and "\<forall>j<length vehicles. \<forall>key. key \<noteq> ''status'' \<longrightarrow>
                   map_of (others ! j) key = map_of (vehicles ! j) key"
  shows "length vehicles' = length vehicles
      \<and> (\<forall>j<length vehicles. \<forall>key. key \<noteq> ''lat'' \<and> key \<noteq> ''lon'' \<and> key \<noteq> ''station_id'' \<longrightarrow>
            map_of (vehicles' ! j) key = map_of (vehicles ! j) key)
      \<and> (\<exists>others'. assign_vehicles_to_stations pint pfloat others stations factor = Inr others'
            \<and> length others' = length vehicles'
            \<and> (\<forall>j<length vehicles. \<forall>key. key \<noteq> ''status'' \<longrightarrow>
                  map_of (others' ! j) key = map_of (vehicles' ! j) key))"
proof -
  have len: "length vehicles' = length vehicles"
    using assign_vehicles_each [OF assms(1)] by simp
  have keep: "map_of (vehicles' ! j) key = map_of (vehicles ! j) key"
    if j: "j < length vehicles"
      and k: "key \<noteq> ''lat''" "key \<noteq> ''lon''" "key \<noteq> ''station_id''" for j key
  proof -
    have "vehicles' ! j = vehicles ! j
          \<or> (\<exists>lk t k. vehicles' ! j = type_target pint pfloat stations factor lk t k (vehicles ! j))"
      using assign_vehicles_each [OF assms(1)] j by simp
    then show ?thesis
    proof
      assume "vehicles' ! j = vehicles ! j"
      then show ?thesis by simp
    next
      assume "\<exists>lk t k. vehicles' ! j = type_target pint pfloat stations factor lk t k (vehicles ! j)"
      then obtain lk t n where "vehicles' ! j = type_target pint pfloat stations factor lk t n (vehicles ! j)"
        by blast
      then show ?thesis by (simp add: type_target_other [OF k])
    qed
  qed
  have a: "\<forall>j<length vehicles. \<forall>key. key \<noteq> ''lat'' \<and> key \<noteq> ''lon'' \<and> key \<noteq> ''station_id'' \<longrightarrow>
            map_of (vehicles' ! j) key = map_of (vehicles ! j) key"
    using keep by simp
  show ?thesis
    by (intro conjI) (rule len, rule a, rule status_blind [OF assms])
qed

theorem rebalance_ignores_status_witness:
  "length example_vehicles_after = length example_vehicles
   \<and> map_of (example_vehicles_after ! 0) ''status'' = map_of (example_vehicles ! 0) ''status''
   \<and> (\<exists>others'. assign_vehicles_to_stations example_int example_float example_vehicles_idle
          example_stations example_factor = Inr others'
        \<and> map_of (others' ! 0) ''lat'' = map_of (example_vehicles_after ! 0) ''lat''
        \<and> map_of (others' ! 0) ''station_id'' = map_of (example_vehicles_after ! 0) ''station_id'')"
proof -
  have l: "length example_vehicles_idle = length example_vehicles"
    by (simp add: example_vehicles_def example_vehicles_idle_def)
  have z: "0 < length example_vehicles" by (simp add: example_vehicles_def)
  show ?thesis
    using rebalance_ignores_status [OF example_run l example_idle_same] z by auto
qed

subsection \<open>The weighted cycle\<close>

lemma lookup_loop_frame:
  "lookup_loop stations lk = Inr lk' \<Longrightarrow> \<forall>s\<in>set stations. map_of s ''id'' \<noteq> Some sid
     \<Longrightarrow> map_of lk' sid = map_of lk sid"
proof (induction stations arbitrary: lk)
  case Nil
  then show ?case by simp
next
  case (Cons a stations)
  from Cons.prems(1) obtain ia where ia: "map_of a ''id'' = Some ia"
    by (auto split: option.splits)
  then have "lookup_loop stations (AList.update ia a lk) = Inr lk'" using Cons.prems(1) by simp
  then have "map_of lk' sid = map_of (AList.update ia a lk) sid"
    using Cons.IH Cons.prems(2) by simp
  moreover have "ia \<noteq> sid" using Cons.prems(2) ia by auto
  ultimately show ?case by (simp add: update_conv')
qed

lemma lookup_loop_map:
  assumes "distinct (map (\<lambda>s. map_of s ''id'') stations)"
      and "lookup_loop stations lk = Inr lk'"
      and "s \<in> set stations" and "map_of s ''id'' = Some sid"
  shows "map_of lk' sid = Some s"
  using assms
proof (induction stations arbitrary: lk)
  case Nil
  then show ?case by simp
next
  case (Cons a stations)
  from Cons.prems(2) obtain ia where ia: "map_of a ''id'' = Some ia"
    by (auto split: option.splits)
  then have run: "lookup_loop stations (AList.update ia a lk) = Inr lk'" using Cons.prems(2) by simp
  show ?case
  proof (cases "s \<in> set stations")
    case True
    then show ?thesis using Cons.IH [OF _ run] Cons.prems(1,4) by simp
  next
    case False
    then have sa: "s = a" "sid = ia" using Cons.prems(3,4) ia by auto
    have "\<forall>t\<in>set stations. map_of t ''id'' \<noteq> Some ia"
      using Cons.prems(1) ia by force
    then have "map_of lk' ia = map_of (AList.update ia a lk) ia"
      using lookup_loop_frame [OF run] by simp
    then show ?thesis using sa by (simp add: update_conv')
  qed
qed

lemma station_weight_positive: "station_weight pint pfloat factor vtype s = Some w \<Longrightarrow> 0 < w"
  by (auto simp: station_weight_def Let_def split: option.splits if_splits)

lemma weight_entry_station:
  "(sid, w) \<in> set (List.map_filter (weight_entry pint pfloat factor vtype) stations) \<Longrightarrow>
     \<exists>s\<in>set stations. map_of s ''id'' = Some sid \<and> 0 < w"
  by (auto simp: List.map_filter_def weight_entry_def station_weight_positive split: option.splits)

lemma weighted_station_ids_concat:
  "weighted_station_ids weights = concat (map (\<lambda>(sid, w). replicate (nat w) sid) weights)"
  by (induction weights rule: weighted_station_ids.induct) simp_all

lemma weighted_station_ids_keys: "set (weighted_station_ids weights) \<subseteq> fst ` set weights"
  by (induction weights rule: weighted_station_ids.induct) auto

lemma weighted_station_ids_nonempty:
  "weights \<noteq> [] \<Longrightarrow> \<forall>(sid, w)\<in>set weights. 0 < w \<Longrightarrow> weighted_station_ids weights \<noteq> []"
  by (cases weights) auto

lemma compute_station_weights_map_filter:
  assumes "\<forall>s\<in>set stations. map_of s ''id'' \<noteq> None"
      and "distinct (map (\<lambda>s. map_of s ''id'') stations)"
  shows "compute_station_weights pint pfloat stations factor vtype
         = Inr (List.map_filter (weight_entry pint pfloat factor vtype) stations)"
  using weights_loop_entries [OF assms, of "[]" pint factor pfloat vtype]
  by (simp add: compute_station_weights_def Let_def expected_volume_eq capacity_field_def)

text \<open>
  Claim C6. For stations with distinct ids, vehicles that all have a type, one of the three
  types and a non-empty weight dictionary for it: the allocation returns; the weight
  dictionary lists the stations that have a weight in the order of the station list, all
  weights positive; the flat list repeats each station id as many consecutive times as its
  weight, in that order; and the \<open>i\<close>-th unit of the type, in listed order, goes to the
  station whose id is at position \<open>i mod n\<close> of the flat list of length \<open>n\<close>: its station
  id becomes that id and its latitude and longitude those of that station.
\<close>

theorem weighted_round_robin:
  assumes "\<forall>s\<in>set stations. map_of s ''id'' \<noteq> None"
      and "distinct (map (\<lambda>s. map_of s ''id'') stations)"
      and "\<forall>v\<in>set vehicles. normalised_type v \<noteq> None"
      and "vtype \<in> known_types"
      and "compute_station_weights pint pfloat stations factor vtype = Inr weights"
      and "weights \<noteq> []"
  shows "\<exists>vehicles'.
        assign_vehicles_to_stations pint pfloat vehicles stations factor = Inr vehicles'
      \<and> weights = List.map_filter (weight_entry pint pfloat factor vtype) stations
      \<and> (\<forall>(sid, w)\<in>set weights. 0 < w)
      \<and> weighted_station_ids weights = concat (map (\<lambda>(sid, w). replicate (nat w) sid) weights)
      \<and> weighted_station_ids weights \<noteq> []
      \<and> (\<forall>i<length (units_of_type vehicles vtype).
           \<exists>st\<in>set stations.
               map_of st ''id''
                 = Some (weighted_station_ids weights ! (i mod length (weighted_station_ids weights)))
             \<and> vehicles' ! (units_of_type vehicles vtype ! i)
                 = move_to_station pfloat st
                     (weighted_station_ids weights ! (i mod length (weighted_station_ids weights)))
                     (vehicles ! (units_of_type vehicles vtype ! i))
             \<and> map_of (vehicles' ! (units_of_type vehicles vtype ! i)) ''station_id''
                 = Some (Str (weighted_station_ids weights ! (i mod length (weighted_station_ids weights))))
             \<and> (\<forall>la lo. station_position pfloat st = Some (la, lo) \<longrightarrow>
                   map_of (vehicles' ! (units_of_type vehicles vtype ! i)) ''lat'' = Some (Flt la)
                 \<and> map_of (vehicles' ! (units_of_type vehicles vtype ! i)) ''lon'' = Some (Flt lo)))"
proof -
  let ?ids = "weighted_station_ids weights"
  let ?units = "units_of_type vehicles vtype"
  have w: "weights = List.map_filter (weight_entry pint pfloat factor vtype) stations"
    using compute_station_weights_map_filter [OF assms(1,2), of pint pfloat factor vtype] assms(5)
    by simp
  have pos: "\<forall>(sid, w)\<in>set weights. 0 < w"
    using weight_entry_station [of _ _ pint pfloat factor vtype stations] unfolding w by blast
  have ne: "?ids \<noteq> []" by (rule weighted_station_ids_nonempty [OF assms(6) pos])
  from assign_vehicles_result [OF assms(1,3), of pint pfloat factor] obtain lk vehicles' where
    lk: "build_station_lookup stations = Inr lk"
    and run: "assign_vehicles_to_stations pint pfloat vehicles stations factor = Inr vehicles'"
    and typed: "\<forall>k<length ?units.
            vehicles' ! (?units ! k) = type_target pint pfloat stations factor lk vtype k (vehicles ! (?units ! k))"
    using assms(4) by blast
  have unit: "\<exists>st\<in>set stations.
               map_of st ''id'' = Some (?ids ! (i mod length ?ids))
             \<and> vehicles' ! (?units ! i)
                 = move_to_station pfloat st (?ids ! (i mod length ?ids)) (vehicles ! (?units ! i))
             \<and> map_of (vehicles' ! (?units ! i)) ''station_id'' = Some (Str (?ids ! (i mod length ?ids)))
             \<and> (\<forall>la lo. station_position pfloat st = Some (la, lo) \<longrightarrow>
                   map_of (vehicles' ! (?units ! i)) ''lat'' = Some (Flt la)
                 \<and> map_of (vehicles' ! (?units ! i)) ''lon'' = Some (Flt lo))"
    if i: "i < length ?units" for i
  proof -
    define sid where "sid = ?ids ! (i mod length ?ids)"
    have "sid \<in> set ?ids" using ne by (simp add: sid_def)
    then have "sid \<in> fst ` set weights" using weighted_station_ids_keys by blast
    then obtain wt where "(sid, wt) \<in> set weights" by force
    then obtain st where st: "st \<in> set stations" "map_of st ''id'' = Some sid"
      using weight_entry_station [of sid wt pint pfloat factor vtype stations] unfolding w by blast
    have look: "map_of lk sid = Some st"
      using lookup_loop_map [OF assms(2) _ st] lk by (simp add: build_station_lookup_def)
    have "st \<noteq> []" using st(2) by auto
    then have "type_target pint pfloat stations factor lk vtype i (vehicles ! (?units ! i))
        = move_to_station pfloat st sid (vehicles ! (?units ! i))"
      using assms(5,6) ne look by (simp add: type_target_def placed_def sid_def)
    then have moved: "vehicles' ! (?units ! i) = move_to_station pfloat st sid (vehicles ! (?units ! i))"
      using typed i by simp
    show ?thesis
      using st moved move_to_station_station_id [of pfloat st sid "vehicles ! (?units ! i)"]
        move_to_station_position [of pfloat st _ _ sid "vehicles ! (?units ! i)"]
      unfolding sid_def [symmetric] by auto
  qed
  show ?thesis
    using run w pos weighted_station_ids_concat [of weights] ne unit by blast
qed

lemma example_weights:
  "compute_station_weights example_int example_float example_stations example_factor ''ambulance''
     = Inr [(''S1'', 4), (''S2'', 1)]"
  by (simp add: compute_station_weights_def example_stations_def example_factor_def example_int_def
      example_float_def get_cell_def dict_get_def normalise_def strip_def lower_def lower_char_def
      is_space_def py_round_def float_eval)

theorem weighted_round_robin_witness:
  "\<exists>vehicles'.
        assign_vehicles_to_stations example_int example_float example_vehicles example_stations
          example_factor = Inr vehicles'
      \<and> [(''S1'', 4), (''S2'', 1)]
          = List.map_filter (weight_entry example_int example_float example_factor ''ambulance'')
              example_stations
      \<and> (\<forall>(sid, w)\<in>set [(''S1'', 4 :: int), (''S2'', 1)]. 0 < w)
      \<and> weighted_station_ids [(''S1'', 4), (''S2'', 1)]
          = concat (map (\<lambda>(sid, w). replicate (nat w) sid) [(''S1'', 4), (''S2'', 1)])
      \<and> weighted_station_ids [(''S1'', 4), (''S2'', 1)] \<noteq> []
      \<and> (\<forall>i<length (units_of_type example_vehicles ''ambulance'').
           \<exists>st\<in>set example_stations.
               map_of st ''id''
                 = Some (weighted_station_ids [(''S1'', 4), (''S2'', 1)]
                           ! (i mod length (weighted_station_ids [(''S1'', 4), (''S2'', 1)])))
             \<and> vehicles' ! (units_of_type example_vehicles ''ambulance'' ! i)
                 = move_to_station example_float st
                     (weighted_station_ids [(''S1'', 4), (''S2'', 1)]
                        ! (i mod length (weighted_station_ids [(''S1'', 4), (''S2'', 1)])))
                     (example_vehicles ! (units_of_type example_vehicles ''ambulance'' ! i))
             \<and> map_of (vehicles' ! (units_of_type example_vehicles ''ambulance'' ! i)) ''station_id''
                 = Some (Str (weighted_station_ids [(''S1'', 4), (''S2'', 1)]
                           ! (i mod length (weighted_station_ids [(''S1'', 4), (''S2'', 1)]))))
             \<and> (\<forall>la lo. station_position example_float st = Some (la, lo) \<longrightarrow>
                   map_of (vehicles' ! (units_of_type example_vehicles ''ambulance'' ! i)) ''lat''
                     = Some (Flt la)
                 \<and> map_of (vehicles' ! (units_of_type example_vehicles ''ambulance'' ! i)) ''lon''
                     = Some (Flt lo)))"
proof (rule weighted_round_robin)
  show "\<forall>s\<in>set example_stations. map_of s ''id'' \<noteq> None"
    by (simp add: example_stations_def)
  show "distinct (map (\<lambda>s. map_of s ''id'') example_stations)"
    by (simp add: example_stations_def)
  show "\<forall>v\<in>set example_vehicles. normalised_type v \<noteq> None"
    by (simp add: example_vehicles_def example_vehicle_def normalised_type_def)
  show "''ambulance'' \<in> known_types"
    by (simp add: known_types_def)
  show "compute_station_weights example_int example_float example_stations example_factor ''ambulance''
      = Inr [(''S1'', 4), (''S2'', 1)]"
    by (rule example_weights)
  show "[(''S1'', 4 :: int), (''S2'', 1)] \<noteq> []"
    by simp
qed

section \<open>The distance\<close>

text \<open>The distance from a point to itself is 0, for a C library whose sine and square of 0
  are 0 and whose \<^verbatim>\<open>atan2(0, 1)\<close> is 0.\<close>

lemma distance_km_same_point:
  assumes "lsin m 0 = 0" and "lpow m 0 2 = 0" and "latan2 m 0 1 = 0"
  shows "distance_km m lat lon lat lon = Inr 0"
  using assms
  by (simp add: distance_km_def radians_def py_sqrt_def Let_def float_eval)

text \<open>The operations of \<^verbatim>\<open>distance_km(8, 1, -8, -179)\<close>, one by one.\<close>

lemma far_dlat: "radians (fsub (- 8) 8) = - 5030569068109113 / 18014398509481984"
proof -
  have "fsub (- 8) 8 = - 16" by (simp add: float_eval)
  moreover have "rnd (- 16 * deg_to_rad) = - 5030569068109113 / 18014398509481984"
    unfolding deg_to_rad_def
    by (subst rnd_eval_lt1 [where n = 1]) (simp_all add: py_round_def)
  ultimately show ?thesis by (simp add: radians_def fmul_def)
qed

lemma far_dlon: "radians (fsub (- 179) 1) = - 884279719003555 / 281474976710656"
proof -
  have "fsub (- 179) 1 = - 180" by (simp add: float_eval)
  moreover have "rnd (- 180 * deg_to_rad) = - 884279719003555 / 281474976710656"
    unfolding deg_to_rad_def
    by (subst rnd_eval_ge1 [where n = 1]) (simp_all add: py_round_def)
  ultimately show ?thesis by (simp add: radians_def fmul_def)
qed

lemma far_half_dlat:
  "fdiv (- 5030569068109113 / 18014398509481984) 2 = - 5030569068109113 / 36028797018963968"
  unfolding fdiv_def
  by (subst rnd_eval_lt1 [where n = 2]) (simp_all add: py_round_def)

lemma far_half_dlon:
  "fdiv (- 884279719003555 / 281474976710656) 2 = - 884279719003555 / 562949953421312"
  unfolding fdiv_def
  by (subst rnd_eval_ge1 [where n = 0]) (simp_all add: py_round_def)

lemma far_lat1: "radians 8 = 5030569068109113 / 36028797018963968"
  unfolding radians_def fmul_def deg_to_rad_def
  by (subst rnd_eval_lt1 [where n = 2]) (simp_all add: py_round_def)

lemma far_lat2: "radians (- 8) = - 5030569068109113 / 36028797018963968"
  unfolding radians_def fmul_def deg_to_rad_def
  by (subst rnd_eval_lt1 [where n = 2]) (simp_all add: py_round_def)

lemma far_cos_product:
  "fmul (4459770905381437 / 4503599627370496) (4459770905381437 / 4503599627370496)
     = 8832737443003841 / 9007199254740992"
  unfolding fmul_def
  by (subst rnd_eval_lt1 [where n = 0]) (simp_all add: py_round_def)

lemma far_second_term:
  "fmul (8832737443003841 / 9007199254740992) 1 = 8832737443003841 / 9007199254740992"
  unfolding fmul_def
  by (subst rnd_eval_lt1 [where n = 0]) (simp_all add: py_round_def)

lemma far_a:
  "fadd (1395694493897217 / 72057594037927936) (8832737443003841 / 9007199254740992)
     = 4503599627370497 / 4503599627370496"
  unfolding fadd_def
  by (subst rnd_eval_ge1 [where n = 0]) (simp_all add: py_round_def)

lemma far_one_minus_a:
  "fsub 1 (4503599627370497 / 4503599627370496) = - 1 / 4503599627370496"
  unfolding fsub_def
  by (subst rnd_eval_lt1 [where n = 51]) (simp_all add: py_round_def)

text \<open>The haversine term of the example: \<open>1 + 2\<^sup>-\<^sup>5\<^sup>2\<close>, the double after 1.\<close>

lemma far_haversine_term:
  "fadd (lpow example_libm (lsin example_libm (fdiv (radians (fsub (- 8) 8)) 2)) 2)
     (fmul (fmul (lcos example_libm (radians 8)) (lcos example_libm (radians (- 8))))
        (lpow example_libm (lsin example_libm (fdiv (radians (fsub (- 179) 1)) 2)) 2))
   = 4503599627370497 / 4503599627370496"
proof -
  have s1: "lsin example_libm (fdiv (radians (fsub (- 8) 8)) 2) = - 5014239404989977 / 36028797018963968"
    by (simp only: far_dlat far_half_dlat) (simp add: example_libm_def)
  have s2: "lsin example_libm (fdiv (radians (fsub (- 179) 1)) 2) = - 1"
    by (simp only: far_dlon far_half_dlon) (simp add: example_libm_def)
  have "rnd (- 5014239404989977 / 36028797018963968 * (- 5014239404989977 / 36028797018963968))
      = 1395694493897217 / 72057594037927936"
    by (subst rnd_eval_lt1 [where n = 5]) (simp_all add: py_round_def)
  then have p1: "lpow example_libm (- 5014239404989977 / 36028797018963968) 2
      = 1395694493897217 / 72057594037927936"
    by (simp add: example_libm_def)
  have p2: "lpow example_libm (- 1) 2 = 1"
    by (simp add: example_libm_def rnd_one)
  have c1: "lcos example_libm (radians 8) = 4459770905381437 / 4503599627370496"
    by (simp only: far_lat1) (simp add: example_libm_def)
  have c2: "lcos example_libm (radians (- 8)) = 4459770905381437 / 4503599627370496"
    by (simp only: far_lat2) (simp add: example_libm_def)
  show ?thesis
    by (simp only: s1 s2 p1 p2 c1 c2 far_cos_product far_second_term far_a)
qed

text \<open>
  Claim C9 says that the distance is a non-negative real for all pairs of coordinates. For
  the point \<open>(8, 1)\<close> and its antipode \<open>(-8, -179)\<close> the haversine term \<open>a\<close> comes out
  as the double after 1, so \<open>1 - a\<close> is negative and \<^verbatim>\<open>math.sqrt(1 - a)\<close> raises
  \<^verbatim>\<open>ValueError\<close>: the function returns no distance.
\<close>

theorem distance_km_antipodal_raises:
  "distance_km example_libm 8 1 (- 8) (- 179) = Inl ValueError"
proof -
  have "py_sqrt (fsub 1 (4503599627370497 / 4503599627370496)) = Inl ValueError"
    by (simp only: far_one_minus_a) (simp add: py_sqrt_def)
  moreover have "\<exists>y. py_sqrt (4503599627370497 / 4503599627370496) = Inr y"
    by (simp add: py_sqrt_def)
  ultimately show ?thesis
    unfolding distance_km_def Let_def far_haversine_term by auto
qed

section \<open>The dispatcher\<close>

lemma read_location_pair:
  "read_location pfloat (Some (JArr [JNum lat, JNum lon])) = Inr (lat, lon)"
  by (simp add: read_location_def)

text \<open>When every distance is computed, the loop keeps the first candidate at the least
  computed distance.\<close>

lemma closest_loop_first_min:
  assumes "\<forall>v\<in>set (b # cs). distance_km m lat lon (lat_col v) (lon_col v) = Inr (km v)"
  shows "\<exists>pre u post. b # cs = pre @ u # post
      \<and> closest_loop m lat lon cs (Some b) (Some (km b)) = Inr (Some u)
      \<and> (\<forall>x\<in>set pre. km u < km x)
      \<and> (\<forall>x\<in>set post. km u \<le> km x)"
  using assms
proof (induction cs arbitrary: b)
  case Nil
  have "[b] = [] @ b # []" by simp
  then show ?case by force
next
  case (Cons v cs)
  have dv: "distance_km m lat lon (lat_col v) (lon_col v) = Inr (km v)"
    using Cons.prems by simp
  show ?case
  proof (cases "km v < km b")
    case True
    have "\<forall>x\<in>set (v # cs). distance_km m lat lon (lat_col x) (lon_col x) = Inr (km x)"
      using Cons.prems by simp
    from Cons.IH [OF this] obtain pre u post where
      h: "v # cs = pre @ u # post"
         "closest_loop m lat lon cs (Some v) (Some (km v)) = Inr (Some u)"
         "\<forall>x\<in>set pre. km u < km x" "\<forall>x\<in>set post. km u \<le> km x"
      by blast
    have "km u \<le> km v"
    proof (cases pre)
      case Nil
      with h(1) show ?thesis by simp
    next
      case (Cons p ps)
      with h(1) have "v \<in> set pre" by simp
      with h(3) show ?thesis by fastforce
    qed
    with True have "km u < km b" by simp
    then have "\<forall>x\<in>set (b # pre). km u < km x" using h(3) by simp
    moreover have "b # v # cs = (b # pre) @ u # post" using h(1) by simp
    moreover have "closest_loop m lat lon (v # cs) (Some b) (Some (km b)) = Inr (Some u)"
      using True h(2) dv by simp
    ultimately show ?thesis using h(4) by blast
  next
    case False
    have "\<forall>x\<in>set (b # cs). distance_km m lat lon (lat_col x) (lon_col x) = Inr (km x)"
      using Cons.prems by simp
    from Cons.IH [OF this] obtain pre u post where
      h: "b # cs = pre @ u # post"
         "closest_loop m lat lon cs (Some b) (Some (km b)) = Inr (Some u)"
         "\<forall>x\<in>set pre. km u < km x" "\<forall>x\<in>set post. km u \<le> km x"
      by blast
    have run: "closest_loop m lat lon (v # cs) (Some b) (Some (km b)) = Inr (Some u)"
      using False h(2) dv by simp
    show ?thesis
    proof (cases pre)
      case Nil
      with h(1) have ub: "u = b" "post = cs" by simp_all
      have "b # v # cs = [] @ u # (v # post)" using ub by simp
      moreover have "\<forall>x\<in>set (v # post). km u \<le> km x" using h(4) False ub by auto
      ultimately show ?thesis using run by (metis empty_iff list.set(1))
    next
      case (Cons p ps)
      with h(1) have pb: "p = b" "cs = ps @ u # post" by simp_all
      have "km u < km b" using h(3) Cons pb by simp
      with False have "km u < km v" by simp
      with h(3) Cons pb have "\<forall>x\<in>set (b # v # ps). km u < km x" by simp
      moreover have "b # v # cs = (b # v # ps) @ u # post" using pb by simp
      ultimately show ?thesis using run h(4) by blast
    qed
  qed
qed

lemma closest_loop_start:
  assumes "cs \<noteq> []"
      and "\<forall>v\<in>set cs. distance_km m lat lon (lat_col v) (lon_col v) = Inr (km v)"
  shows "\<exists>pre u post. cs = pre @ u # post
      \<and> closest_loop m lat lon cs None None = Inr (Some u)
      \<and> (\<forall>x\<in>set pre. km u < km x)
      \<and> (\<forall>x\<in>set post. km u \<le> km x)"
proof -
  from assms(1) obtain b rest where cs: "cs = b # rest" by (cases cs) auto
  have "distance_km m lat lon (lat_col b) (lon_col b) = Inr (km b)"
    using assms(2) cs by simp
  then have "closest_loop m lat lon cs None None
      = closest_loop m lat lon rest (Some b) (Some (km b))"
    by (simp add: cs)
  then show ?thesis
    using closest_loop_first_min [of b rest m lat lon km] assms(2) cs by simp
qed

lemma mark_busy_one:
  assumes "distinct (map id_col db)" and "j < length db"
  shows "mark_busy db (id_col (db ! j)) = db[j := (db ! j)\<lparr>status_col := ''busy''\<rparr>]"
proof (rule nth_equalityI)
  show "length (mark_busy db (id_col (db ! j))) = length (db[j := (db ! j)\<lparr>status_col := ''busy''\<rparr>])"
    by (simp add: mark_busy_def)
next
  fix i assume "i < length (mark_busy db (id_col (db ! j)))"
  then have i: "i < length db" by (simp add: mark_busy_def)
  have "id_col (db ! i) = id_col (db ! j) \<longleftrightarrow> i = j"
    using assms i nth_eq_iff_index_eq [of "map id_col db" i j] by simp
  then show "mark_busy db (id_col (db ! j)) ! i = db[j := (db ! j)\<lparr>status_col := ''busy''\<rparr>] ! i"
    using i assms(2) by (auto simp: mark_busy_def nth_list_update)
qed

lemma read_location_rejected:
  "rejected_location pfloat loc \<Longrightarrow> \<exists>e. read_location pfloat loc = Inl e \<and> invalid_location_error e"
  by (auto simp: rejected_location_def read_location_def invalid_location_error_def
      split: option.splits json.splits)

text \<open>
  Claim C3 says that a request whose type is not one of the three categories fails as an
  invalid request and not as anything else. The endpoint never looks at the type string
  except to select rows: a request for a boat, with a good location, is answered with
  \<^verbatim>\<open>No available unit\<close>.
\<close>

theorem request_unit_unknown_type_counterexample:
  "request_unit example_libm (\<lambda>j. ''?'') (\<lambda>s. None) (JObj (example_request ''boat'')) example_db
     = (Error 400 ''No available unit'', example_db)"
  by (simp add: example_request_def example_db_def request_unit_def dict_get_def read_location_def
      select_available_def normalise_def strip_def lower_def lower_char_def is_space_def Let_def)

text \<open>
  Claim C3, amended. A request whose location is absent or null, or a string, array or
  object whose length is not 2, or an array of two entries one of which cannot be converted
  to a float, is answered with one of the two invalid-location errors (status 400), whatever
  its type string, and the table is unchanged. The type string is not validated: a request
  whose location is a pair of numbers is never answered with an invalid-location error,
  whatever its type string.
\<close>

theorem request_unit_validation:
  "(rejected_location pfloat (map_of data ''location'') \<longrightarrow>
      invalid_location_error (fst (request_unit m repr pfloat (JObj data) db))
      \<and> snd (request_unit m repr pfloat (JObj data) db) = db)
   \<and> (map_of data ''location'' = Some (JArr [JNum lat, JNum lon]) \<longrightarrow>
      \<not> invalid_location_error (fst (request_unit m repr pfloat (JObj data) db)))"
proof (intro conjI impI)
  assume "rejected_location pfloat (map_of data ''location'')"
  then obtain e where e: "read_location pfloat (map_of data ''location'') = Inl e" "invalid_location_error e"
    using read_location_rejected by blast
  have "request_unit m repr pfloat (JObj data) db = (e, db)"
  proof (cases "data = []")
    case True
    with e show ?thesis by (simp add: request_unit_def)
  next
    case False
    with e show ?thesis by (simp add: request_unit_def)
  qed
  then show "invalid_location_error (fst (request_unit m repr pfloat (JObj data) db))"
    and "snd (request_unit m repr pfloat (JObj data) db) = db" using e(2) by simp_all
next
  assume l: "map_of data ''location'' = Some (JArr [JNum lat, JNum lon])"
  then have "data \<noteq> []" by auto
  then show "\<not> invalid_location_error (fst (request_unit m repr pfloat (JObj data) db))"
    using l by (simp add: request_unit_def read_location_pair invalid_location_error_def Let_def
        split: option.splits sum.splits)
qed

theorem request_unit_validation_witness:
  "rejected_location (\<lambda>s. None)
     (map_of [(''type'', JStr ''ambulance''), (''location'', JArr [JNum 1])] ''location'')
   \<and> invalid_location_error (fst (request_unit example_libm (\<lambda>j. ''?'') (\<lambda>s. None)
         (JObj [(''type'', JStr ''ambulance''), (''location'', JArr [JNum 1])]) example_db))
   \<and> snd (request_unit example_libm (\<lambda>j. ''?'') (\<lambda>s. None)
         (JObj [(''type'', JStr ''ambulance''), (''location'', JArr [JNum 1])]) example_db) = example_db
   \<and> map_of (example_request ''boat'') ''location'' = Some (JArr [JNum 1, JNum 2])
   \<and> \<not> invalid_location_error (fst (request_unit example_libm (\<lambda>j. ''?'') (\<lambda>s. None)
         (JObj (example_request ''boat'')) example_db))"
proof -
  let ?data = "[(''type'', JStr ''ambulance''), (''location'', JArr [JNum 1])]"
  have a: "rejected_location (\<lambda>s. None) (map_of ?data ''location'')"
    by (simp add: rejected_location_def)
  have b: "map_of (example_request ''boat'') ''location'' = Some (JArr [JNum 1, JNum 2])"
    by (simp add: example_request_def)
  show ?thesis
    using a b
      request_unit_validation [of "\<lambda>s. None" ?data example_libm "\<lambda>j. ''?''" example_db 1 2]
      request_unit_validation [of "\<lambda>s. None" "example_request ''boat''" example_libm "\<lambda>j. ''?''" example_db 1 2]
    by blast
qed

text \<open>
  Claim C7. A well-formed request (a type string and a location that is a pair of numbers)
  for a type of which no row of the table has status \<^verbatim>\<open>available\<close> is answered with the
  error \<^verbatim>\<open>No available unit\<close>, and the table after the call is the table before it: no
  status, and nothing else, has changed.
\<close>

theorem request_unit_no_available:
  assumes "map_of data ''type'' = Some (JStr t)"
      and "map_of data ''location'' = Some (JArr [JNum lat, JNum lon])"
      and "\<forall>v\<in>set db. type_col v = normalise t \<longrightarrow> status_col v \<noteq> ''available''"
  shows "request_unit m repr pfloat (JObj data) db = (Error 400 ''No available unit'', db)"
proof -
  have ne: "data \<noteq> []" using assms(1) by auto
  have "select_available db (normalise t) = []"
    using assms(3) by (auto simp: select_available_def filter_empty_conv)
  then show ?thesis
    using ne assms(1,2) by (simp add: request_unit_def dict_get_def read_location_pair)
qed

theorem request_unit_no_available_witness:
  "request_unit example_libm (\<lambda>j. ''?'') (\<lambda>s. None) (JObj (example_request ''fire'')) example_db
     = (Error 400 ''No available unit'', example_db)"
  by (rule request_unit_no_available [where t = "''fire''"])
     (simp_all add: example_request_def example_db_def normalise_def strip_def lower_def
        lower_char_def is_space_def)

text \<open>What the endpoint does when every distance is computed: the unit chosen is the first
  candidate at the least computed distance, and with distinct ids exactly its row becomes
  busy.\<close>

lemma request_unit_closest_when_defined:
  assumes "map_of data ''type'' = Some (JStr t)"
      and "map_of data ''location'' = Some (JArr [JNum lat, JNum lon])"
      and "select_available db (normalise t) \<noteq> []"
      and "distinct (map id_col db)"
      and "\<forall>v\<in>set (select_available db (normalise t)).
             distance_km m lat lon (lat_col v) (lon_col v) = Inr (km v)"
  shows "\<exists>pre u post j.
           select_available db (normalise t) = pre @ u # post
         \<and> (\<forall>x\<in>set pre. km u < km x)
         \<and> (\<forall>x\<in>set post. km u \<le> km x)
         \<and> j < length db \<and> db ! j = u
         \<and> request_unit m repr pfloat (JObj data) db =
             (Assigned (id_col u) (lat_col u, lon_col u) (lat, lon),
              db[j := u\<lparr>status_col := ''busy''\<rparr>])"
proof -
  let ?cs = "select_available db (normalise t)"
  from closest_loop_start [OF assms(3,5)] obtain pre u post where
    h: "?cs = pre @ u # post" "closest_loop m lat lon ?cs None None = Inr (Some u)"
       "\<forall>x\<in>set pre. km u < km x" "\<forall>x\<in>set post. km u \<le> km x"
    by blast
  have "u \<in> set ?cs" using h(1) by simp
  then have "u \<in> set db" by (simp add: select_available_def)
  then obtain j where j: "j < length db" "db ! j = u" by (auto simp: in_set_conv_nth)
  have ne: "data \<noteq> []" using assms(1) by auto
  have "request_unit m repr pfloat (JObj data) db =
          (Assigned (id_col u) (lat_col u, lon_col u) (lat, lon), mark_busy db (id_col u))"
    using ne assms(1,2,3) h(2) by (simp add: request_unit_def dict_get_def read_location_pair)
  moreover have "mark_busy db (id_col u) = db[j := u\<lparr>status_col := ''busy''\<rparr>]"
    using mark_busy_one [OF assms(4) j(1)] j(2) by simp
  ultimately have "select_available db (normalise t) = pre @ u # post
         \<and> (\<forall>x\<in>set pre. km u < km x)
         \<and> (\<forall>x\<in>set post. km u \<le> km x)
         \<and> j < length db \<and> db ! j = u
         \<and> request_unit m repr pfloat (JObj data) db =
             (Assigned (id_col u) (lat_col u, lon_col u) (lat, lon),
              db[j := u\<lparr>status_col := ''busy''\<rparr>])"
    using h j by simp
  then show ?thesis by (intro exI)
qed

text \<open>A request at the place of two available ambulances: both distances are 0 and the one
  listed first is taken.\<close>

lemma request_unit_example:
  "request_unit example_libm (\<lambda>j. ''?'') (\<lambda>s. None) (JObj (example_request ''ambulance'')) example_db =
     (Assigned ''A2'' (1, 2) (1, 2), example_db[1 := (example_db ! 1)\<lparr>status_col := ''busy''\<rparr>])"
proof -
  have "distance_km example_libm 1 2 1 2 = Inr 0"
    by (rule distance_km_same_point) (simp_all add: example_libm_def rnd_zero)
  then show ?thesis
    by (simp add: example_request_def example_db_def request_unit_def dict_get_def read_location_def
        select_available_def mark_busy_def normalise_def strip_def lower_def lower_char_def
        is_space_def Let_def)
qed

text \<open>
  Claim C4 says that every valid request with a candidate gets the closest candidate and
  marks it busy. With one available ambulance at \<open>(-8, -179)\<close> and a request for an
  ambulance at \<open>(8, 1)\<close>, the distance to the only candidate cannot be computed
  (\<^verbatim>\<open>math.sqrt(1 - a)\<close> raises \<^verbatim>\<open>ValueError\<close>), nothing catches the exception, and the
  request is answered with status 500: no unit is selected and the table is unchanged.
\<close>

theorem request_unit_antipodal_raises:
  "request_unit example_libm (\<lambda>j. ''?'') (\<lambda>s. None) (JObj example_request_far) example_db_far
     = (Uncaught ValueError, example_db_far)"
proof -
  have "distance_km example_libm 8 1 (- 8) (- 179) = Inl ValueError"
    unfolding distance_km_def Let_def far_haversine_term
    by (simp only: far_one_minus_a) (simp add: py_sqrt_def)
  then show ?thesis
    by (simp add: example_request_far_def example_db_far_def request_unit_def dict_get_def
        read_location_def select_available_def normalise_def strip_def lower_def lower_char_def
        is_space_def Let_def)
qed

end
